theory Spec2Isabelle
  imports Complex_Main "HOL-Library.Char_ord" "HOL-Library.List_Lexorder"
begin

section \<open>Data model (storage.ts)\<close>

text \<open>
  The persisted entities of \<^verbatim>\<open>storage.ts\<close>. Timestamps and deadlines are ISO strings
  in the source, always produced by \<^verbatim>\<open>toISOString()\<close> and compared after
  \<^verbatim>\<open>new Date(...)\<close>; the model keeps the millisecond value they denote as an
  \<^typ>\<open>int\<close>. Optional fields are \<^typ>\<open>'a option\<close>. The field \<^verbatim>\<open>id\<close> is named
  \<open>mission_id\<close> for a mission and \<open>sub_id\<close> for a submission, and the \<^verbatim>\<open>threadId\<close> of a
  submission is \<open>sub_threadId\<close>.
\<close>

datatype mission_status = Active | Closed | Exported

record mission =
  mission_id :: string
  title :: string
  threadId :: string
  deadline :: int
  status :: mission_status
  createdAt :: int
  exportedAt :: "int option"
  brief :: "string option"
  telegramMessageId :: "string option"
  telegramChatId :: "string option"

record vote =
  judgeId :: string
  score :: int
  timestamp :: int

datatype origin = Discord | Telegram

record submission =
  sub_id :: string
  messageId :: string
  channelId :: string
  sub_threadId :: string
  missionId :: string
  userId :: string
  userTag :: string
  content :: string
  urls :: "string list"
  votes :: "vote list"
  submittedAt :: int
  exported :: bool
  source :: origin

section \<open>JavaScript helpers\<close>

text \<open>\<^verbatim>\<open>Array.prototype.findIndex\<close>: the index of the first match, \<open>-1\<close> when there is none.\<close>

fun findIndex :: "('a \<Rightarrow> bool) \<Rightarrow> 'a list \<Rightarrow> int" where
  "findIndex P [] = - 1"
| "findIndex P (x # xs) =
     (if P x then 0 else (let i = findIndex P xs in if i < 0 then - 1 else i + 1))"

text \<open>
  \<^verbatim>\<open>const x = xs.find(p); if (x) { mutate x; save(data) }\<close>: the object found is the
  first match, it is mutated in place, and the whole collection is written back.
\<close>

fun update_first :: "('a \<Rightarrow> bool) \<Rightarrow> ('a \<Rightarrow> 'a) \<Rightarrow> 'a list \<Rightarrow> 'a list" where
  "update_first P f [] = []"
| "update_first P f (x # xs) = (if P x then f x # xs else x # update_first P f xs)"

text \<open>Decimal rendering of a number (\<^verbatim>\<open>toString()\<close>, template literals).\<close>

definition digit_char :: "nat \<Rightarrow> char" where
  "digit_char d = ''0123456789'' ! (d mod 10)"

fun nat_toString :: "nat \<Rightarrow> string" where
  "nat_toString n = (if n < 10 then [digit_char n] else nat_toString (n div 10) @ [digit_char n])"

definition int_toString :: "int \<Rightarrow> string" where
  "int_toString i = (if i < 0 then CHR ''-'' # nat_toString (nat (- i)) else nat_toString (nat i))"

section \<open>Mission functions (storage.ts)\<close>

text \<open>
  Every function loads the whole collection, works on it and, when it changed something,
  saves it: the model passes the collection in and returns the new one. \<open>now\<close> is the
  clock reading (\<^verbatim>\<open>Date.now()\<close>, \<^verbatim>\<open>new Date()\<close>) of the call.
\<close>

definition registerMission ::
  "int \<Rightarrow> string \<Rightarrow> string \<Rightarrow> int \<Rightarrow> string option \<Rightarrow> mission list \<Rightarrow> mission \<times> mission list" where
  "registerMission now tid ttl dl br ms =
     (case find (\<lambda>m. threadId m = tid) ms of
        Some existing \<Rightarrow> (existing, ms)
      | None \<Rightarrow>
          (let m = \<lparr> mission_id = ''mission-'' @ int_toString now,
                     title = ttl,
                     threadId = tid,
                     deadline = dl,
                     status = Active,
                     createdAt = now,
                     exportedAt = None,
                     brief = br,
                     telegramMessageId = None,
                     telegramChatId = None \<rparr>
           in (m, ms @ [m])))"

definition getMissionByThread :: "string \<Rightarrow> mission list \<Rightarrow> mission option" where
  "getMissionByThread tid ms = find (\<lambda>m. threadId m = tid) ms"

definition getMissionById :: "string \<Rightarrow> mission list \<Rightarrow> mission option" where
  "getMissionById mid ms = find (\<lambda>m. mission_id m = mid) ms"

definition getMissionByTelegramMessage :: "string \<Rightarrow> mission list \<Rightarrow> mission option" where
  "getMissionByTelegramMessage msg ms = find (\<lambda>m. telegramMessageId m = Some msg) ms"

definition updateMissionTelegramInfo :: "string \<Rightarrow> string \<Rightarrow> string \<Rightarrow> mission list \<Rightarrow> mission list" where
  "updateMissionTelegramInfo mid tmsg tchat ms =
     (case find (\<lambda>m. mission_id m = mid) ms of
        None \<Rightarrow> ms
      | Some _ \<Rightarrow>
          update_first (\<lambda>m. mission_id m = mid)
            (\<lambda>m. m\<lparr> telegramMessageId := Some tmsg, telegramChatId := Some tchat \<rparr>) ms)"

definition markMissionClosed :: "string \<Rightarrow> mission list \<Rightarrow> mission list" where
  "markMissionClosed mid ms =
     (case find (\<lambda>m. mission_id m = mid) ms of
        None \<Rightarrow> ms
      | Some _ \<Rightarrow> update_first (\<lambda>m. mission_id m = mid) (\<lambda>m. m\<lparr> status := Closed \<rparr>) ms)"

definition getActiveMissions :: "mission list \<Rightarrow> mission list" where
  "getActiveMissions ms = filter (\<lambda>m. status m = Active) ms"

definition getMissionsPastDeadline :: "int \<Rightarrow> mission list \<Rightarrow> mission list" where
  "getMissionsPastDeadline now ms = filter (\<lambda>m. status m = Active \<and> deadline m < now) ms"

definition markMissionExported :: "int \<Rightarrow> string \<Rightarrow> mission list \<Rightarrow> mission list" where
  "markMissionExported now mid ms =
     (case find (\<lambda>m. mission_id m = mid) ms of
        None \<Rightarrow> ms
      | Some _ \<Rightarrow>
          update_first (\<lambda>m. mission_id m = mid)
            (\<lambda>m. m\<lparr> status := Exported, exportedAt := Some now \<rparr>) ms)"

section \<open>Submission functions (storage.ts)\<close>

text \<open>
  \<open>rnd\<close> is the four characters that \<^verbatim>\<open>Math.random().toString(36).slice(2, 6)\<close>
  contributes to a new submission's id.
\<close>

definition createSubmission ::
  "int \<Rightarrow> string \<Rightarrow> string \<Rightarrow> string \<Rightarrow> string \<Rightarrow> string \<Rightarrow> string \<Rightarrow> string \<Rightarrow> string \<Rightarrow>
   string list \<Rightarrow> origin \<Rightarrow> submission list \<Rightarrow> submission \<times> submission list" where
  "createSubmission now rnd msg chan tid mid uid utag txt us src subs =
     (let s = \<lparr> sub_id = ''sub-'' @ int_toString now @ ''-'' @ rnd,
                messageId = msg,
                channelId = chan,
                sub_threadId = tid,
                missionId = mid,
                userId = uid,
                userTag = utag,
                content = txt,
                urls = us,
                votes = [],
                submittedAt = now,
                exported = False,
                source = src \<rparr>
      in (s, subs @ [s]))"

definition getSubmissionByMessage :: "string \<Rightarrow> submission list \<Rightarrow> submission option" where
  "getSubmissionByMessage msg subs = find (\<lambda>s. messageId s = msg) subs"

definition getSubmissionsByMission :: "string \<Rightarrow> submission list \<Rightarrow> submission list" where
  "getSubmissionsByMission mid subs = filter (\<lambda>s. missionId s = mid) subs"

text \<open>The update of one submission's vote collection inside \<^verbatim>\<open>recordVote\<close>.\<close>

definition putVote :: "vote \<Rightarrow> vote list \<Rightarrow> vote list" where
  "putVote v vs =
     (let existingVoteIndex = findIndex (\<lambda>x. judgeId x = judgeId v) vs
      in if 0 \<le> existingVoteIndex then vs[nat existingVoteIndex := v] else vs @ [v])"

definition recordVote :: "int \<Rightarrow> string \<Rightarrow> string \<Rightarrow> int \<Rightarrow> submission list \<Rightarrow> submission list" where
  "recordVote now sid j sc subs =
     (case find (\<lambda>s. sub_id s = sid) subs of
        None \<Rightarrow> subs
      | Some _ \<Rightarrow>
          update_first (\<lambda>s. sub_id s = sid)
            (\<lambda>s. s\<lparr> votes := putVote \<lparr> judgeId = j, score = sc, timestamp = now \<rparr> (votes s) \<rparr>) subs)"

definition removeVote :: "string \<Rightarrow> string \<Rightarrow> submission list \<Rightarrow> submission list" where
  "removeVote sid j subs =
     (case find (\<lambda>s. sub_id s = sid) subs of
        None \<Rightarrow> subs
      | Some _ \<Rightarrow>
          update_first (\<lambda>s. sub_id s = sid)
            (\<lambda>s. s\<lparr> votes := filter (\<lambda>v. judgeId v \<noteq> j) (votes s) \<rparr>) subs)"

definition markSubmissionsExported :: "string \<Rightarrow> submission list \<Rightarrow> submission list" where
  "markSubmissionsExported mid subs =
     map (\<lambda>s. if missionId s = mid then s\<lparr> exported := True \<rparr> else s) subs"

section \<open>JavaScript numbers\<close>

text \<open>
  A JavaScript number is an IEEE 754 binary64 value. The model keeps the rational it
  denotes and rounds after each operation: \<open>js_round q\<close> is the binary64 value nearest
  to \<open>q\<close>, ties going to the even significand (53 significant bits). Values that
  overflow to \<^verbatim>\<open>Infinity\<close> (magnitude \<open>2 ^ 1024\<close> and more) and subnormal values are
  outside the model; sums and quotients of vote scores never reach either.
\<close>

function flog2 :: "int \<Rightarrow> int" where
  "flog2 n = (if n < 2 then 0 else 1 + flog2 (n div 2))"
  by pat_completeness auto
termination
  by (relation "measure nat") auto

declare flog2.simps [simp del]

definition pow2 :: "int \<Rightarrow> rat" where
  "pow2 e = (if 0 \<le> e then 2 ^ nat e else 1 / 2 ^ nat (- e))"

definition binary_exponent :: "rat \<Rightarrow> int" where
  "binary_exponent q =
     (let (a, b) = quotient_of q;
          e0 = flog2 a - flog2 b
      in if pow2 e0 \<le> q then e0 else e0 - 1)"

definition round_half_even :: "rat \<Rightarrow> int" where
  "round_half_even q =
     (let f = \<lfloor>q\<rfloor>; r = q - of_int f
      in if r < 1 / 2 then f else if 1 / 2 < r then f + 1 else if even f then f else f + 1)"

definition js_round :: "rat \<Rightarrow> rat" where
  "js_round q =
     (if q = 0 then 0
      else (let u = pow2 (binary_exponent \<bar>q\<bar> - 52)
            in sgn q * of_int (round_half_even (\<bar>q\<bar> / u)) * u))"

definition js_add :: "rat \<Rightarrow> rat \<Rightarrow> rat" where
  "js_add a b = js_round (a + b)"

definition js_div :: "rat \<Rightarrow> rat \<Rightarrow> rat" where
  "js_div a b = js_round (a / b)"

text \<open>
  \<^verbatim>\<open>Number.prototype.toFixed(2)\<close>: with \<open>n\<close> the integer for which \<open>n / 100\<close> is nearest
  to the number (the larger one on a tie), the digits of \<open>n\<close>, padded with zeros to three
  places, with a point before the last two; a minus sign first for a negative number.
  (From \<open>10 ^ 21\<close> on JavaScript switches to exponent notation, which the model leaves out.)
\<close>

definition toFixed2 :: "rat \<Rightarrow> string" where
  "toFixed2 x =
     (let n = nat \<lfloor>\<bar>x\<bar> * 100 + 1 / 2\<rfloor>;
          m = nat_toString n;
          padded = replicate (3 - length m) CHR ''0'' @ m
      in (if x < 0 then ''-'' else []) @
         take (length padded - 2) padded @ ''.'' @ drop (length padded - 2) padded)"

text \<open>Reading a string of decimal digits back as a number.\<close>

definition digit_value :: "char \<Rightarrow> nat" where
  "digit_value c = of_char c - 48"

definition read_nat :: "string \<Rightarrow> nat" where
  "read_nat s = foldl (\<lambda>a c. 10 * a + digit_value c) 0 s"

section \<open>The export destination (google-spreadsheet, as sheets.ts uses it)\<close>

text \<open>
  The spreadsheet document is a collection of tabs addressed by title
  (\<^verbatim>\<open>doc.sheetsByTitle\<close>); a tab has a header row and data rows. \<^verbatim>\<open>addSheet\<close> creates an
  empty tab, \<^verbatim>\<open>clear\<close> empties one, \<^verbatim>\<open>setHeaderRow\<close> writes the header and \<^verbatim>\<open>addRows\<close>
  appends data rows. Every call goes to a remote service and may throw instead.
\<close>

record sheet =
  headerValues :: "string list"
  sheetRows :: "string list list"

datatype api_call = GetSpreadsheet | AddSheet | Clear | SetHeaderRow | AddRows

text \<open>What \<^verbatim>\<open>exportMissionToSheets\<close> asks of the store and of the document, in order.\<close>

datatype call =
    MarkMissionExportedCall string
  | MarkSubmissionsExportedCall string
  | AddSheetCall string
  | ClearCall string
  | SetHeaderRowCall string "string list"
  | AddRowsCall string "string list list"

record world =
  missions :: "mission list"
  submissions :: "submission list"
  sheetsByTitle :: "string \<rightharpoonup> sheet"
  calls :: "call list"

record export_result =
  success :: bool
  rowCount :: nat
  error :: "string option"

section \<open>Export (sheets.ts)\<close>

text \<open>
  \<^verbatim>\<open>String.prototype.trim\<close> removes white space and line terminators from both ends. A
  character of the model is a code unit below 256; the ones \<^verbatim>\<open>trim\<close> removes are tab, line
  feed, vertical tab, form feed, carriage return, space and the no-break space U+00A0.
\<close>

definition isWhitespace :: "char \<Rightarrow> bool" where
  "isWhitespace c =
     (c \<in> set [CHR 0x09, CHR 0x0A, CHR 0x0B, CHR 0x0C, CHR 0x0D, CHR 0x20, CHR 0xA0])"

definition trim :: "string \<Rightarrow> string" where
  "trim s = rev (dropWhile isWhitespace (rev (dropWhile isWhitespace s)))"

definition sanitizeTitle :: "string \<Rightarrow> string" where
  "sanitizeTitle t =
     trim (take 100
       (map (\<lambda>c. if c \<in> set [CHR ''*'', CHR ''?'', CHR '':'', CHR ''/'', CHR 0x5C, CHR ''['',
                               CHR '']'', CHR 0x27]
                  then CHR ''-'' else c) t))"

text \<open>\<^verbatim>\<open>new Set()\<close> filled with \<^verbatim>\<open>add\<close>: insertion order, a value already present is skipped.\<close>

definition set_add :: "'a list \<Rightarrow> 'a \<Rightarrow> 'a list" where
  "set_add xs x = (if x \<in> set xs then xs else xs @ [x])"

definition judgeIdArray :: "submission list \<Rightarrow> string list" where
  "judgeIdArray subs =
     sort (foldl (\<lambda>judgeIds s. foldl (\<lambda>ids v. set_add ids (judgeId v)) judgeIds (votes s)) [] subs)"

definition headers :: "string list \<Rightarrow> string list" where
  "headers judges =
     [''Submission ID'', ''User ID'', ''User Tag'', ''URL'', ''Content'', ''Submitted At'',
      ''Vote Count'', ''Average Score''] @
     map (\<lambda>i. ''Judge_'' @ drop (length i - 6) i) judges"

definition avgScore :: "submission \<Rightarrow> string" where
  "avgScore s =
     (let voteScores = map (\<lambda>v. of_int (score v)) (votes s)
      in if 0 < length voteScores
         then toFixed2 (js_div (foldl js_add 0 voteScores) (of_nat (length voteScores)))
         else ''N/A'')"

definition judgeScores :: "string list \<Rightarrow> submission \<Rightarrow> string list" where
  "judgeScores judges s =
     map (\<lambda>j. case find (\<lambda>v. judgeId v = j) (votes s) of
                 Some v \<Rightarrow> int_toString (score v)
               | None \<Rightarrow> []) judges"

text \<open>
  One row of the tab. \<open>toISOString\<close> renders a stored timestamp as its ISO string: the source
  keeps \<^verbatim>\<open>submittedAt\<close> as that string and copies it into the row.
\<close>

definition buildRow :: "(int \<Rightarrow> string) \<Rightarrow> string list \<Rightarrow> submission \<Rightarrow> string list" where
  "buildRow toISOString judges s =
     [sub_id s, userId s, userTag s,
      (case urls s of [] \<Rightarrow> [] | u # _ \<Rightarrow> u),
      take 500 (content s),
      toISOString (submittedAt s),
      nat_toString (length (votes s)),
      avgScore s] @ judgeScores judges s"

text \<open>
  \<^verbatim>\<open>doc.sheetsByTitle\<close> is a plain object keyed by the titles of the tabs. So
  \<^verbatim>\<open>doc.sheetsByTitle[title]\<close> is the tab of that title when there is one; when there is
  none it is \<^verbatim>\<open>undefined\<close>, unless the title is a name every object inherits
  (\<^verbatim>\<open>constructor\<close>, \<^verbatim>\<open>toString\<close>, ...): then it is the inherited value, which is truthy and
  is not a tab.
\<close>

definition inheritedNames :: "string list" where
  "inheritedNames =
     [''constructor'', ''__defineGetter__'', ''__defineSetter__'', ''hasOwnProperty'',
      ''__lookupGetter__'', ''__lookupSetter__'', ''isPrototypeOf'', ''propertyIsEnumerable'',
      ''toString'', ''valueOf'', ''__proto__'', ''toLocaleString'']"

datatype lookup = NoTab | Tab sheet | NotATab

definition sheetLookup :: "(string \<rightharpoonup> sheet) \<Rightarrow> string \<Rightarrow> lookup" where
  "sheetLookup doc t =
     (case doc t of
        Some sh \<Rightarrow> Tab sh
      | None \<Rightarrow> (if t \<in> set inheritedNames then NotATab else NoTab))"

text \<open>
  \<^verbatim>\<open>setHeaderRow\<close> trims the header cells and, before it sends them, refuses a header in
  which a non-empty cell occurs twice (\<^verbatim>\<open>Duplicate header detected\<close>). It also refuses a
  header wider than the grid of the tab; the grid belongs to the remote document, and that
  refusal is one of the failures \<open>throws SetHeaderRow\<close> stands for below.
\<close>

definition duplicateHeader :: "string list \<Rightarrow> string option" where
  "duplicateHeader hs = find (\<lambda>h. h \<noteq> [] \<and> 1 < count_list hs h) hs"

definition duplicateHeaderMessage :: "string \<Rightarrow> string" where
  "duplicateHeaderMessage h =
     ''Duplicate header detected: '' @ [CHR 0x22] @ h @ [CHR 0x22] @
     ''. Please make sure all non-empty headers are unique''"

definition setHeaderRowThrows :: "(api_call \<Rightarrow> string option) \<Rightarrow> string list \<Rightarrow> string option" where
  "setHeaderRowThrows throws hs =
     (case duplicateHeader (map trim hs) of
        Some h \<Rightarrow> Some (duplicateHeaderMessage h)
      | None \<Rightarrow> throws SetHeaderRow)"

text \<open>The four operations on a tab of the document.\<close>

definition addSheet :: "string \<Rightarrow> (string \<rightharpoonup> sheet) \<Rightarrow> (string \<rightharpoonup> sheet)" where
  "addSheet t doc = doc(t \<mapsto> \<lparr> headerValues = [], sheetRows = [] \<rparr>)"

definition clear :: "string \<Rightarrow> (string \<rightharpoonup> sheet) \<Rightarrow> (string \<rightharpoonup> sheet)" where
  "clear t doc =
     (case doc t of None \<Rightarrow> doc | Some sh \<Rightarrow> doc(t \<mapsto> \<lparr> headerValues = [], sheetRows = [] \<rparr>))"

definition setHeaderRow :: "string \<Rightarrow> string list \<Rightarrow> (string \<rightharpoonup> sheet) \<Rightarrow> (string \<rightharpoonup> sheet)" where
  "setHeaderRow t hs doc =
     (case doc t of None \<Rightarrow> doc | Some sh \<Rightarrow> doc(t \<mapsto> sh\<lparr> headerValues := map trim hs \<rparr>))"

definition addRows :: "string \<Rightarrow> string list list \<Rightarrow> (string \<rightharpoonup> sheet) \<Rightarrow> (string \<rightharpoonup> sheet)" where
  "addRows t rows doc =
     (case doc t of None \<Rightarrow> doc | Some sh \<Rightarrow> doc(t \<mapsto> sh\<lparr> sheetRows := sheetRows sh @ rows \<rparr>))"

definition failed :: "string \<Rightarrow> export_result" where
  "failed msg = \<lparr> success = False, rowCount = 0, error = Some msg \<rparr>"

text \<open>
  \<open>throws c = Some msg\<close> says that the remote call \<open>c\<close> throws \<^verbatim>\<open>Error(msg)\<close> during
  this export. The \<^verbatim>\<open>try\<close> block ends at the first call that throws; what was done before
  stays done. \<open>calls\<close> grows by every call made, in order. When the lookup of the tab
  yields an inherited value, \<^verbatim>\<open>sheet.clear()\<close> is a \<^verbatim>\<open>TypeError\<close> and no call is made.
\<close>

definition exportMissionToSheets ::
  "(api_call \<Rightarrow> string option) \<Rightarrow> (int \<Rightarrow> string) \<Rightarrow> int \<Rightarrow> mission \<Rightarrow> world \<Rightarrow> export_result \<times> world" where
  "exportMissionToSheets throws toISOString now mission w =
     (case throws GetSpreadsheet of
        Some msg \<Rightarrow> (failed msg, w)
      | None \<Rightarrow>
     (let subs = getSubmissionsByMission (mission_id mission) (submissions w) in
      if length subs = 0
      then (\<lparr> success = True, rowCount = 0, error = None \<rparr>,
            w\<lparr> missions := markMissionExported now (mission_id mission) (missions w),
               calls := calls w @ [MarkMissionExportedCall (mission_id mission)] \<rparr>)
      else
     (let judges = judgeIdArray subs;
          sheetTitle = sanitizeTitle (title mission);
          existing = sheetLookup (sheetsByTitle w) sheetTitle
      in if existing = NotATab then (failed ''sheet.clear is not a function'', w)
      else
     (let w1 = w\<lparr> calls := calls w @
                  [if existing = NoTab then AddSheetCall sheetTitle else ClearCall sheetTitle] \<rparr>
      in case throws (if existing = NoTab then AddSheet else Clear) of
        Some msg \<Rightarrow> (failed msg, w1)
      | None \<Rightarrow>
     (let w2 = w1\<lparr> sheetsByTitle :=
                  (if existing = NoTab then addSheet sheetTitle (sheetsByTitle w1)
                   else clear sheetTitle (sheetsByTitle w1)) \<rparr>;
          hs = headers judges;
          rows = map (buildRow toISOString judges) subs;
          w3 = w2\<lparr> calls := calls w2 @ [SetHeaderRowCall sheetTitle hs] \<rparr>
      in case setHeaderRowThrows throws hs of
        Some msg \<Rightarrow> (failed msg, w3)
      | None \<Rightarrow>
     (let w4 = w3\<lparr> sheetsByTitle := setHeaderRow sheetTitle hs (sheetsByTitle w3),
                  calls := calls w3 @ [AddRowsCall sheetTitle rows] \<rparr>
      in case throws AddRows of
        Some msg \<Rightarrow> (failed msg, w4)
      | None \<Rightarrow>
          (\<lparr> success = True, rowCount = length rows, error = None \<rparr>,
           w4\<lparr> sheetsByTitle := addRows sheetTitle rows (sheetsByTitle w4),
               missions := markMissionExported now (mission_id mission) (missions w4),
               submissions := markSubmissionsExported (mission_id mission) (submissions w4),
               calls := calls w4 @ [MarkMissionExportedCall (mission_id mission),
                                    MarkSubmissionsExportedCall (mission_id mission)] \<rparr>)))))))"

section \<open>Deadline checker (deadline-checker.ts)\<close>

text \<open>
  The Discord collaborators of the sweep are awaited calls: each one resolves with a
  value or rejects. They and the spreadsheet configuration are the environment of a sweep.
\<close>

datatype 'a awaited = Resolved 'a | Rejected string

record env =
  postMissionSummaryToThread :: "string \<Rightarrow> mission \<Rightarrow> submission list \<Rightarrow> unit awaited"
  closeThread :: "string \<Rightarrow> bool awaited"
  updateStarterEmbed :: "mission \<Rightarrow> unit awaited"
  postMissionResultsToChannel :: "mission \<Rightarrow> submission list \<Rightarrow> unit awaited"
  isSheetsConfigured :: bool
  sheetsThrows :: "mission \<Rightarrow> api_call \<Rightarrow> string option"
  toISOString :: "int \<Rightarrow> string"

text \<open>
  A sweep has no \<^verbatim>\<open>try\<close> of its own: a rejected \<^verbatim>\<open>await\<close> ends \<^verbatim>\<open>checkDeadlines\<close> there
  (\<open>Failed\<close>, with the world as it is at that point), and its caller logs the error.
\<close>

datatype run = Done world | Failed string world

text \<open>
  The body of the \<^verbatim>\<open>for\<close> loop: steps 1 to 7 for one mission. The mission is the record
  the sweep read at its start; the store functions look its id up again. \<open>now\<close> is the
  clock of the sweep.
\<close>

definition processMission :: "env \<Rightarrow> int \<Rightarrow> mission \<Rightarrow> world \<Rightarrow> run" where
  "processMission e now mission w =
     (let subs = getSubmissionsByMission (mission_id mission) (submissions w) in
      case postMissionSummaryToThread e (threadId mission) mission subs of
        Rejected msg \<Rightarrow> Failed msg w
      | Resolved _ \<Rightarrow>
     (case closeThread e (threadId mission) of
        Rejected msg \<Rightarrow> Failed msg w
      | Resolved threadClosed \<Rightarrow>
     (case updateStarterEmbed e mission of
        Rejected msg \<Rightarrow> Failed msg w
      | Resolved _ \<Rightarrow>
     (let w1 = w\<lparr> missions := markMissionClosed (mission_id mission) (missions w) \<rparr> in
      case postMissionResultsToChannel e mission subs of
        Rejected msg \<Rightarrow> Failed msg w1
      | Resolved _ \<Rightarrow>
          (if isSheetsConfigured e
           then Done (snd (exportMissionToSheets (sheetsThrows e mission) (toISOString e) now mission w1))
           else Done w1)))))"

fun processAll :: "env \<Rightarrow> int \<Rightarrow> mission list \<Rightarrow> world \<Rightarrow> run" where
  "processAll e now [] w = Done w"
| "processAll e now (mission # rest) w =
     (case processMission e now mission w of
        Done w' \<Rightarrow> processAll e now rest w'
      | Failed msg w' \<Rightarrow> Failed msg w')"

definition checkDeadlines :: "env \<Rightarrow> int \<Rightarrow> world \<Rightarrow> run" where
  "checkDeadlines e now w =
     (let missionsPastDeadline = getMissionsPastDeadline now (missions w)
      in if length missionsPastDeadline = 0 then Done w
         else processAll e now missionsPastDeadline w)"

definition world_of :: "run \<Rightarrow> world" where
  "world_of r = (case r of Done w \<Rightarrow> w | Failed msg w \<Rightarrow> w)"

section \<open>The Discord collaborators of the sweep (discord.ts)\<close>

text \<open>
  The sweep imports its four collaborators from discord.ts; their definitions are missing.
  Each of them makes calls to the chat platform; \<open>platform\<close> is what such a call does.
\<close>

datatype platform = Succeeds | Throws string

text \<open>
  Modelled from the spec: \<^verbatim>\<open>postMissionSummaryToThread\<close> of discord.ts, which is missing.
  Section 4.4, step 2: the summary-posting collaborator is "best-effort, does not block
  subsequent steps on failure"; section 7: a failure of a chat API call is "caught at the
  call site, logged, and treated as non-fatal". So the awaited call resolves whatever the
  platform does.
\<close>

definition postMissionSummaryToThread_spec :: "platform \<Rightarrow> unit awaited" where
  "postMissionSummaryToThread_spec p = (case p of Succeeds \<Rightarrow> Resolved () | Throws msg \<Rightarrow> Resolved ())"

text \<open>
  Modelled from the spec: \<^verbatim>\<open>closeThread\<close> of discord.ts, which is missing. Section 4.4,
  step 3: the thread-locking collaborator is "best-effort; failure is logged, not fatal".
  The sweep reads its result as "the thread was closed", so a failure resolves to
  \<^verbatim>\<open>false\<close>.
\<close>

definition closeThread_spec :: "platform \<Rightarrow> bool awaited" where
  "closeThread_spec p = (case p of Succeeds \<Rightarrow> Resolved True | Throws msg \<Rightarrow> Resolved False)"

text \<open>
  Modelled from the spec: \<^verbatim>\<open>updateStarterEmbed\<close> of discord.ts, which is missing. Section
  4.4, step 4: the announcement-update collaborator is "best-effort"; section 7 as above.
\<close>

definition updateStarterEmbed_spec :: "platform \<Rightarrow> unit awaited" where
  "updateStarterEmbed_spec p = (case p of Succeeds \<Rightarrow> Resolved () | Throws msg \<Rightarrow> Resolved ())"

text \<open>
  Modelled from the spec: \<^verbatim>\<open>postMissionResultsToChannel\<close> of discord.ts, which is missing.
  Section 4.4, step 6: the results-posting collaborator is "best-effort"; section 7 as
  above.
\<close>

definition postMissionResultsToChannel_spec :: "platform \<Rightarrow> unit awaited" where
  "postMissionResultsToChannel_spec p = (case p of Succeeds \<Rightarrow> Resolved () | Throws msg \<Rightarrow> Resolved ())"

text \<open>What the chat platform does for the calls of each collaborator.\<close>

record chat =
  summaryCalls :: "string \<Rightarrow> mission \<Rightarrow> submission list \<Rightarrow> platform"
  lockCalls :: "string \<Rightarrow> platform"
  embedCalls :: "mission \<Rightarrow> platform"
  resultsCalls :: "mission \<Rightarrow> submission list \<Rightarrow> platform"

text \<open>The environment of a sweep with these collaborators.\<close>

definition discord_env ::
  "chat \<Rightarrow> bool \<Rightarrow> (mission \<Rightarrow> api_call \<Rightarrow> string option) \<Rightarrow> (int \<Rightarrow> string) \<Rightarrow> env" where
  "discord_env c configured thr fmt =
     \<lparr> postMissionSummaryToThread = (\<lambda>t m subs. postMissionSummaryToThread_spec (summaryCalls c t m subs)),
       closeThread = (\<lambda>t. closeThread_spec (lockCalls c t)),
       updateStarterEmbed = (\<lambda>m. updateStarterEmbed_spec (embedCalls c m)),
       postMissionResultsToChannel = (\<lambda>m subs. postMissionResultsToChannel_spec (resultsCalls c m subs)),
       isSheetsConfigured = configured,
       sheetsThrows = thr,
       toISOString = fmt \<rparr>"

text \<open>\<open>all_resolve e\<close>: no collaborator of the sweep rejects, whatever it is called with.\<close>

definition all_resolve :: "env \<Rightarrow> bool" where
  "all_resolve e =
     ((\<forall>t m subs. \<exists>u. postMissionSummaryToThread e t m subs = Resolved u)
    \<and> (\<forall>t. \<exists>b. closeThread e t = Resolved b)
    \<and> (\<forall>m. \<exists>u. updateStarterEmbed e m = Resolved u)
    \<and> (\<forall>m subs. \<exists>u. postMissionResultsToChannel e m subs = Resolved u))"

section \<open>Sequences of store operations\<close>

text \<open>The lifecycle order of a mission's status.\<close>

fun status_rank :: "mission_status \<Rightarrow> nat" where
  "status_rank Active = 0"
| "status_rank Closed = 1"
| "status_rank Exported = 2"

text \<open>
  \<open>no_regress ms ms'\<close>: every record of \<open>ms\<close> is still at its place in \<open>ms'\<close>, with a status
  that is not earlier in the lifecycle.
\<close>

fun no_regress :: "mission list \<Rightarrow> mission list \<Rightarrow> bool" where
  "no_regress [] ms' = True"
| "no_regress (m # ms) [] = False"
| "no_regress (m # ms) (m' # ms') =
     (status_rank (status m) \<le> status_rank (status m') \<and> no_regress ms ms')"

datatype store_op =
    RegisterMission int string string int "string option"
  | MarkMissionClosed string
  | MarkMissionExported int string
  | UpdateMissionTelegramInfo string string string

fun apply_op :: "store_op \<Rightarrow> mission list \<Rightarrow> mission list" where
  "apply_op (RegisterMission now tid ttl dl br) ms = snd (registerMission now tid ttl dl br ms)"
| "apply_op (MarkMissionClosed mid) ms = markMissionClosed mid ms"
| "apply_op (MarkMissionExported now mid) ms = markMissionExported now mid ms"
| "apply_op (UpdateMissionTelegramInfo mid tmsg tchat) ms = updateMissionTelegramInfo mid tmsg tchat ms"

fun run_ops :: "store_op list \<Rightarrow> mission list \<Rightarrow> mission list" where
  "run_ops [] ms = ms"
| "run_ops (opn # ops) ms = run_ops ops (apply_op opn ms)"

text \<open>
  \<open>closes_unexported ops ms\<close>: along the run of \<open>ops\<close> from \<open>ms\<close>, \<^verbatim>\<open>markMissionClosed\<close> is
  never called with the id of a mission that is exported at that moment.
\<close>

fun op_ok :: "store_op \<Rightarrow> mission list \<Rightarrow> bool" where
  "op_ok (MarkMissionClosed mid) ms =
     (case getMissionById mid ms of None \<Rightarrow> True | Some m \<Rightarrow> status m \<noteq> Exported)"
| "op_ok opn ms = True"

fun closes_unexported :: "store_op list \<Rightarrow> mission list \<Rightarrow> bool" where
  "closes_unexported [] ms = True"
| "closes_unexported (opn # ops) ms = (op_ok opn ms \<and> closes_unexported ops (apply_op opn ms))"

text \<open>
  A sequence of \<^verbatim>\<open>recordVote\<close> calls for one submission and one judge; each call has its
  score and its clock reading.
\<close>

fun recordVotes :: "(int \<times> int) list \<Rightarrow> string \<Rightarrow> string \<Rightarrow> submission list \<Rightarrow> submission list" where
  "recordVotes [] sid j subs = subs"
| "recordVotes ((sc, now) # rest) sid j subs = recordVotes rest sid j (recordVote now sid j sc subs)"

text \<open>
  The submission collections the program can build: it starts empty and changes only
  through the functions of \<^verbatim>\<open>storage.ts\<close>.
\<close>

inductive reachable :: "submission list \<Rightarrow> bool" where
  empty: "reachable []"
| create: "reachable subs \<Longrightarrow>
     reachable (snd (createSubmission now rnd msg chan tid mid uid utag txt us src subs))"
| record_vote: "reachable subs \<Longrightarrow> reachable (recordVote now sid j sc subs)"
| remove_vote: "reachable subs \<Longrightarrow> reachable (removeVote sid j subs)"
| mark_exported: "reachable subs \<Longrightarrow> reachable (markSubmissionsExported mid subs)"

text \<open>No vote collection holds two entries of one judge.\<close>

definition judges_distinct :: "submission list \<Rightarrow> bool" where
  "judges_distinct subs = list_all (\<lambda>s. distinct (map judgeId (votes s))) subs"

text \<open>The entries of a vote collection that belong to judge \<open>j\<close>.\<close>

definition votesBy :: "string \<Rightarrow> submission \<Rightarrow> vote list" where
  "votesBy j s = filter (\<lambda>v. judgeId v = j) (votes s)"

text \<open>The number of data rows of a tab; a tab that does not exist has none.\<close>

definition tabRowCount :: "(string \<rightharpoonup> sheet) \<Rightarrow> string \<Rightarrow> nat" where
  "tabRowCount doc t = (case doc t of None \<Rightarrow> 0 | Some sh \<Rightarrow> length (sheetRows sh))"

section \<open>The scenario of the specification\<close>

text \<open>
  Mission M with two submissions: S1 with the votes of judge A (4) and judge B (2), S2
  with the vote of judge A (5). M's deadline is one minute before the scan time 120000.
\<close>

definition mission_M :: mission where
  "mission_M = \<lparr> mission_id = ''mission-1'', title = ''Mission M'', threadId = ''thread-1'',
                 deadline = 60000, status = Active, createdAt = 1, exportedAt = None,
                 brief = None, telegramMessageId = None, telegramChatId = None \<rparr>"

definition submission_S1 :: submission where
  "submission_S1 = \<lparr> sub_id = ''sub-2-aaaa'', messageId = ''msg-1'', channelId = ''thread-1'',
                      sub_threadId = ''thread-1'', missionId = ''mission-1'', userId = ''u1'',
                      userTag = ''user#1'', content = ''https://a.example/1'',
                      urls = [''https://a.example/1''],
                      votes = [\<lparr> judgeId = ''judgeA'', score = 4, timestamp = 10 \<rparr>,
                               \<lparr> judgeId = ''judgeB'', score = 2, timestamp = 11 \<rparr>],
                      submittedAt = 2, exported = False, source = Discord \<rparr>"

definition submission_S2 :: submission where
  "submission_S2 = \<lparr> sub_id = ''sub-3-bbbb'', messageId = ''msg-2'', channelId = ''thread-1'',
                      sub_threadId = ''thread-1'', missionId = ''mission-1'', userId = ''u2'',
                      userTag = ''user#2'', content = ''https://a.example/2'',
                      urls = [''https://a.example/2''],
                      votes = [\<lparr> judgeId = ''judgeA'', score = 5, timestamp = 12 \<rparr>],
                      submittedAt = 3, exported = False, source = Discord \<rparr>"

definition world_M :: world where
  "world_M = \<lparr> missions = [mission_M], submissions = [submission_S1, submission_S2],
               sheetsByTitle = Map.empty, calls = [] \<rparr>"

text \<open>A second mission, without submissions, stored next to M.\<close>

definition mission_E :: mission where
  "mission_E = \<lparr> mission_id = ''mission-5'', title = ''Empty'', threadId = ''thread-5'',
                 deadline = 60000, status = Active, createdAt = 5, exportedAt = None,
                 brief = None, telegramMessageId = None, telegramChatId = None \<rparr>"

definition world_E :: world where
  "world_E = \<lparr> missions = [mission_M, mission_E], submissions = [submission_S1, submission_S2],
               sheetsByTitle = Map.empty, calls = [] \<rparr>"

text \<open>
  Submission S1 as the program builds it: created with no votes, then scored by judge B.
\<close>

definition store_S :: "submission list" where
  "store_S =
     recordVote 11 ''sub-2-aaaa'' ''judgeB'' 2
       (snd (createSubmission 2 ''aaaa'' ''msg-1'' ''thread-1'' ''thread-1'' ''mission-1'' ''u1''
               ''user#1'' ''https://a.example/1'' [''https://a.example/1''] Discord []))"

text \<open>An environment in which every collaborator and every remote call succeeds.\<close>

definition env_ok :: env where
  "env_ok = \<lparr> postMissionSummaryToThread = (\<lambda>t m subs. Resolved ()),
              closeThread = (\<lambda>t. Resolved True),
              updateStarterEmbed = (\<lambda>m. Resolved ()),
              postMissionResultsToChannel = (\<lambda>m subs. Resolved ()),
              isSheetsConfigured = True,
              sheetsThrows = (\<lambda>m c. None),
              toISOString = int_toString \<rparr>"

text \<open>An environment whose summary collaborator rejects.\<close>

definition env_summary_rejects :: env where
  "env_summary_rejects =
     env_ok\<lparr> postMissionSummaryToThread := (\<lambda>t m subs. Rejected ''Missing Access'') \<rparr>"

text \<open>
  Two missions registered for two threads within the same millisecond: both get the id
  \<open>mission-1\<close>. In \<open>env_twins\<close> the spreadsheet cannot be reached during the export of the
  second one.
\<close>

definition world_twins :: world where
  "world_twins =
     \<lparr> missions = snd (registerMission 1 ''thread-2'' ''Mission B'' 60000 None
                         (snd (registerMission 1 ''thread-1'' ''Mission A'' 60000 None []))),
       submissions = [], sheetsByTitle = Map.empty, calls = [] \<rparr>"

definition env_twins :: env where
  "env_twins =
     env_ok\<lparr> sheetsThrows :=
       (\<lambda>m c. if threadId m = ''thread-2'' then Some ''Service unavailable'' else None) \<rparr>"

text \<open>
  Mission D has one submission, scored by two judges whose ids end in the same six
  characters. Mission C is titled \<open>constructor\<close>. Mission T has the title of mission M and
  no submission.
\<close>

definition mission_D :: mission where
  "mission_D = \<lparr> mission_id = ''mission-6'', title = ''Mission D'', threadId = ''thread-6'',
                 deadline = 60000, status = Active, createdAt = 6, exportedAt = None,
                 brief = None, telegramMessageId = None, telegramChatId = None \<rparr>"

definition submission_D :: submission where
  "submission_D = \<lparr> sub_id = ''sub-6-dddd'', messageId = ''msg-6'', channelId = ''thread-6'',
                     sub_threadId = ''thread-6'', missionId = ''mission-6'', userId = ''u1'',
                     userTag = ''user#1'', content = ''https://a.example/6'',
                     urls = [''https://a.example/6''],
                     votes = [\<lparr> judgeId = ''111111222333'', score = 4, timestamp = 10 \<rparr>,
                              \<lparr> judgeId = ''999999222333'', score = 5, timestamp = 11 \<rparr>],
                     submittedAt = 6, exported = False, source = Discord \<rparr>"

definition world_D :: world where
  "world_D = \<lparr> missions = [mission_D], submissions = [submission_D],
               sheetsByTitle = Map.empty, calls = [] \<rparr>"

definition mission_C :: mission where
  "mission_C = \<lparr> mission_id = ''mission-8'', title = ''constructor'', threadId = ''thread-8'',
                 deadline = 60000, status = Active, createdAt = 8, exportedAt = None,
                 brief = None, telegramMessageId = None, telegramChatId = None \<rparr>"

definition submission_C :: submission where
  "submission_C = \<lparr> sub_id = ''sub-8-cccc'', messageId = ''msg-8'', channelId = ''thread-8'',
                     sub_threadId = ''thread-8'', missionId = ''mission-8'', userId = ''u1'',
                     userTag = ''user#1'', content = ''https://a.example/8'',
                     urls = [''https://a.example/8''],
                     votes = [\<lparr> judgeId = ''judgeA'', score = 4, timestamp = 10 \<rparr>],
                     submittedAt = 8, exported = False, source = Discord \<rparr>"

definition world_C :: world where
  "world_C = \<lparr> missions = [mission_C], submissions = [submission_C],
               sheetsByTitle = Map.empty, calls = [] \<rparr>"

definition mission_T :: mission where
  "mission_T = \<lparr> mission_id = ''mission-7'', title = ''Mission M'', threadId = ''thread-7'',
                 deadline = 60000, status = Active, createdAt = 7, exportedAt = None,
                 brief = None, telegramMessageId = None, telegramChatId = None \<rparr>"

text \<open>The store holds M and T, and M has been exported: its tab holds two rows.\<close>

definition world_T :: world where
  "world_T =
     snd (exportMissionToSheets (\<lambda>c. None) int_toString 125000 mission_M
            \<lparr> missions = [mission_M, mission_T], submissions = [submission_S1, submission_S2],
              sheetsByTitle = Map.empty, calls = [] \<rparr>)"

text \<open>
  A chat platform on which every call of the summary, locking and announcement steps
  throws.
\<close>

definition chat_down :: chat where
  "chat_down = \<lparr> summaryCalls = (\<lambda>t m subs. Throws ''Missing Access''),
                 lockCalls = (\<lambda>t. Throws ''Missing Permissions''),
                 embedCalls = (\<lambda>m. Throws ''Unknown Message''),
                 resultsCalls = (\<lambda>m subs. Succeeds) \<rparr>"

section \<open>Basic facts about \<open>find\<close> and in-place update\<close>

lemma update_first_no_match:
  "find P xs = None \<Longrightarrow> update_first P f xs = xs"
  by (induction xs) (auto split: if_splits)

lemma length_update_first:
  "length (update_first P f xs) = length xs"
  by (induction xs) auto

lemma find_update_first:
  assumes "\<And>x. P x \<Longrightarrow> P (f x)"
  shows "find P (update_first P f xs) = map_option f (find P xs)"
  using assms by (induction xs) auto

lemma find_absent:
  "k \<notin> key ` set xs \<Longrightarrow> find (\<lambda>x. key x = k) xs = None"
  by (induction xs) auto

lemma find_in_set:
  "find P xs = Some x \<Longrightarrow> x \<in> set xs \<and> P x"
  by (induction xs) (auto split: if_splits)

lemma find_distinct_key:
  "distinct (map key xs) \<Longrightarrow> x \<in> set xs \<Longrightarrow> find (\<lambda>y. key y = key x) xs = Some x"
  by (induction xs) (auto simp: image_iff)

section \<open>Lookups and mutations on ids that do not exist\<close>

text \<open>
  C9. A lookup with a mission id, thread id or message id that no stored record has
  returns the empty result (\<^verbatim>\<open>null\<close>, here \<open>None\<close>); the functions are total, nothing is
  thrown. \<^verbatim>\<open>recordVote\<close>, \<^verbatim>\<open>removeVote\<close>, \<^verbatim>\<open>markMissionClosed\<close> and
  \<^verbatim>\<open>markMissionExported\<close> with an id that no stored record has return the collection as
  it was.
\<close>

theorem not_found_is_empty_or_noop:
  assumes "mid \<notin> mission_id ` set ms"
    and "tid \<notin> threadId ` set ms"
    and "msg \<notin> messageId ` set subs"
    and "sid \<notin> sub_id ` set subs"
  shows "getMissionById mid ms = None
       \<and> getMissionByThread tid ms = None
       \<and> getSubmissionByMessage msg subs = None
       \<and> recordVote now sid j sc subs = subs
       \<and> removeVote sid j subs = subs
       \<and> markMissionClosed mid ms = ms
       \<and> markMissionExported now mid ms = ms"
  using assms
  by (simp add: getMissionById_def getMissionByThread_def getSubmissionByMessage_def
      recordVote_def removeVote_def markMissionClosed_def markMissionExported_def find_absent)

section \<open>Mission registration\<close>

lemma registerMission_finds_returned:
  "find (\<lambda>m. threadId m = tid) (snd (registerMission now tid ttl dl br ms))
     = Some (fst (registerMission now tid ttl dl br ms))"
proof (cases "find (\<lambda>m. threadId m = tid) ms")
  case None
  then show ?thesis
    by (induction ms) (auto simp: registerMission_def Let_def split: if_splits)
next
  case (Some existing)
  then show ?thesis by (simp add: registerMission_def)
qed

lemma registerMission_keeps_threads_distinct:
  "distinct (map threadId ms) \<Longrightarrow>
   distinct (map threadId (snd (registerMission now tid ttl dl br ms)))"
proof (cases "find (\<lambda>m. threadId m = tid) ms")
  case None
  assume d: "distinct (map threadId ms)"
  from None have "tid \<notin> threadId ` set ms"
    by (auto simp: find_None_iff)
  with d None show ?thesis
    by (simp add: registerMission_def Let_def)
next
  case (Some existing)
  assume "distinct (map threadId ms)"
  with Some show ?thesis by (simp add: registerMission_def)
qed

text \<open>
  C5. Registering the same thread id twice (whatever title, deadline, brief and clock
  reading the second call has) returns the same mission both times, so the same mission
  id; the second call leaves the collection exactly as the first call left it, so no
  second record is added.
\<close>

theorem registerMission_idempotent:
  "fst (registerMission now2 tid ttl2 dl2 br2 (snd (registerMission now1 tid ttl1 dl1 br1 ms)))
     = fst (registerMission now1 tid ttl1 dl1 br1 ms)
   \<and> mission_id (fst (registerMission now2 tid ttl2 dl2 br2 (snd (registerMission now1 tid ttl1 dl1 br1 ms))))
     = mission_id (fst (registerMission now1 tid ttl1 dl1 br1 ms))
   \<and> snd (registerMission now2 tid ttl2 dl2 br2 (snd (registerMission now1 tid ttl1 dl1 br1 ms)))
     = snd (registerMission now1 tid ttl1 dl1 br1 ms)
   \<and> length (snd (registerMission now2 tid ttl2 dl2 br2 (snd (registerMission now1 tid ttl1 dl1 br1 ms))))
     = length (snd (registerMission now1 tid ttl1 dl1 br1 ms))"
proof -
  let ?r1 = "registerMission now1 tid ttl1 dl1 br1 ms"
  have found: "find (\<lambda>m. threadId m = tid) (snd ?r1) = Some (fst ?r1)"
    by (rule registerMission_finds_returned)
  have "registerMission now2 tid ttl2 dl2 br2 (snd ?r1) = (fst ?r1, snd ?r1)"
    unfolding registerMission_def [of now2 tid ttl2 dl2 br2 "snd ?r1"] using found by simp
  then show ?thesis by simp
qed

section \<open>Deadline selection\<close>

text \<open>
  C3, as the code has it. At scan time \<open>t\<close> the missions selected are exactly the stored
  missions whose status is \<open>active\<close> and whose deadline is strictly before \<open>t\<close>, in
  stored order. A mission whose deadline equals \<open>t\<close> is not selected at \<open>t\<close>; a closed or
  exported mission is never selected.
\<close>

theorem getMissionsPastDeadline_selects:
  "set (getMissionsPastDeadline t ms) = {m. m \<in> set ms \<and> status m = Active \<and> deadline m < t}
   \<and> getMissionsPastDeadline t ms = filter (\<lambda>m. status m = Active \<and> deadline m < t) ms"
  by (auto simp: getMissionsPastDeadline_def)

text \<open>
  The claim with \<open>\<le>\<close> fails: an active mission whose deadline is the scan time itself
  is not selected.
\<close>

theorem getMissionsPastDeadline_deadline_now_counterexample:
  "\<not> (set (getMissionsPastDeadline 1000
          [\<lparr> mission_id = ''mission-1'', title = ''M'', threadId = ''t1'', deadline = 1000,
             status = Active, createdAt = 1, exportedAt = None, brief = None,
             telegramMessageId = None, telegramChatId = None \<rparr>])
        = {m. m \<in> set [\<lparr> mission_id = ''mission-1'', title = ''M'', threadId = ''t1'',
                            deadline = 1000, status = Active, createdAt = 1, exportedAt = None,
                            brief = None, telegramMessageId = None, telegramChatId = None \<rparr>]
              \<and> status m = Active \<and> deadline m \<le> 1000})"
  by (auto simp: getMissionsPastDeadline_def)

text \<open>
  Missions with deadlines one millisecond before, at and one millisecond after the scan
  time, and a closed and an exported mission past their deadlines: only the first is
  selected.
\<close>

lemma deadline_selection_scenario:
  "getMissionsPastDeadline t
     [m1\<lparr> status := Active, deadline := t - 1 \<rparr>,
      m2\<lparr> status := Active, deadline := t \<rparr>,
      m3\<lparr> status := Active, deadline := t + 1 \<rparr>,
      m4\<lparr> status := Closed, deadline := t - 1 \<rparr>,
      m5\<lparr> status := Exported, deadline := t - 1 \<rparr>]
   = [m1\<lparr> status := Active, deadline := t - 1 \<rparr>]"
  by (simp add: getMissionsPastDeadline_def)

theorem not_found_is_empty_or_noop_witness:
  "''mission-9'' \<notin> mission_id ` set [mission_M]
   \<and> ''thread-9'' \<notin> threadId ` set [mission_M]
   \<and> ''msg-9'' \<notin> messageId ` set [submission_S1, submission_S2]
   \<and> ''sub-9'' \<notin> sub_id ` set [submission_S1, submission_S2]
   \<and> getMissionById ''mission-9'' [mission_M] = None
   \<and> getMissionByThread ''thread-9'' [mission_M] = None
   \<and> getSubmissionByMessage ''msg-9'' [submission_S1, submission_S2] = None
   \<and> recordVote 50 ''sub-9'' ''judgeA'' 3 [submission_S1, submission_S2]
       = [submission_S1, submission_S2]
   \<and> removeVote ''sub-9'' ''judgeA'' [submission_S1, submission_S2]
       = [submission_S1, submission_S2]
   \<and> markMissionClosed ''mission-9'' [mission_M] = [mission_M]
   \<and> markMissionExported 50 ''mission-9'' [mission_M] = [mission_M]"
proof -
  have h1: "''mission-9'' \<notin> mission_id ` set [mission_M]"
    by (simp add: mission_M_def)
  have h2: "''thread-9'' \<notin> threadId ` set [mission_M]"
    by (simp add: mission_M_def)
  have h3: "''msg-9'' \<notin> messageId ` set [submission_S1, submission_S2]"
    by (simp add: submission_S1_def submission_S2_def)
  have h4: "''sub-9'' \<notin> sub_id ` set [submission_S1, submission_S2]"
    by (simp add: submission_S1_def submission_S2_def)
  from not_found_is_empty_or_noop [OF h1 h2 h3 h4, of 50 "''judgeA''" 3] h1 h2 h3 h4
  show ?thesis by simp
qed

section \<open>Lifecycle status\<close>

lemma no_regress_refl: "no_regress ms ms"
  by (induction ms) auto

lemma no_regress_trans:
  "no_regress xs ys \<Longrightarrow> no_regress ys zs \<Longrightarrow> no_regress xs zs"
proof (induction xs ys arbitrary: zs rule: no_regress.induct)
  case (1 ms')
  then show ?case by simp
next
  case (2 m ms)
  then show ?case by simp
next
  case (3 m ms m' ms')
  then show ?case by (cases zs) auto
qed

lemma no_regress_append: "no_regress ms (ms @ extra)"
  by (induction ms) auto

lemma no_regress_update_first:
  "(\<And>m. find P ms = Some m \<Longrightarrow> status_rank (status m) \<le> status_rank (status (f m))) \<Longrightarrow>
   no_regress ms (update_first P f ms)"
proof (induction ms)
  case Nil
  then show ?case by simp
next
  case (Cons a ms)
  show ?case
  proof (cases "P a")
    case True
    with Cons.prems [of a] show ?thesis by (simp add: no_regress_refl)
  next
    case False
    with Cons.prems have "\<And>m. find P ms = Some m \<Longrightarrow> status_rank (status m) \<le> status_rank (status (f m))"
      by simp
    from Cons.IH [OF this] False show ?thesis by simp
  qed
qed

lemma status_rank_le_2: "status_rank s \<le> 2"
  by (cases s) simp_all

lemma no_regress_registerMission:
  "no_regress ms (snd (registerMission now tid ttl dl br ms))"
  by (simp add: registerMission_def Let_def no_regress_refl no_regress_append split: option.splits)

lemma no_regress_markMissionExported:
  "no_regress ms (markMissionExported now mid ms)"
proof (cases "find (\<lambda>m. mission_id m = mid) ms")
  case None
  then show ?thesis by (simp add: markMissionExported_def no_regress_refl)
next
  case (Some a)
  have "no_regress ms (update_first (\<lambda>m. mission_id m = mid)
            (\<lambda>m. m\<lparr> status := Exported, exportedAt := Some now \<rparr>) ms)"
    by (rule no_regress_update_first) (simp add: status_rank_le_2)
  with Some show ?thesis by (simp add: markMissionExported_def)
qed

lemma no_regress_updateMissionTelegramInfo:
  "no_regress ms (updateMissionTelegramInfo mid tmsg tchat ms)"
proof (cases "find (\<lambda>m. mission_id m = mid) ms")
  case None
  then show ?thesis by (simp add: updateMissionTelegramInfo_def no_regress_refl)
next
  case (Some a)
  have "no_regress ms (update_first (\<lambda>m. mission_id m = mid)
            (\<lambda>m. m\<lparr> telegramMessageId := Some tmsg, telegramChatId := Some tchat \<rparr>) ms)"
    by (rule no_regress_update_first) simp
  with Some show ?thesis by (simp add: updateMissionTelegramInfo_def)
qed

text \<open>
  \<^verbatim>\<open>markMissionClosed\<close> writes \<open>closed\<close> whatever the status was. That is a step forward or
  no step for an active or closed mission.
\<close>

lemma no_regress_markMissionClosed:
  assumes "op_ok (MarkMissionClosed mid) ms"
  shows "no_regress ms (markMissionClosed mid ms)"
proof (cases "find (\<lambda>m. mission_id m = mid) ms")
  case None
  then show ?thesis by (simp add: markMissionClosed_def no_regress_refl)
next
  case (Some a)
  with assms have ne: "status a \<noteq> Exported"
    by (simp add: getMissionById_def)
  have "no_regress ms (update_first (\<lambda>m. mission_id m = mid) (\<lambda>m. m\<lparr> status := Closed \<rparr>) ms)"
  proof (rule no_regress_update_first)
    fix m assume "find (\<lambda>m. mission_id m = mid) ms = Some m"
    with Some ne have "status m \<noteq> Exported" by simp
    then show "status_rank (status m) \<le> status_rank (status (m\<lparr> status := Closed \<rparr>))"
      by (cases "status m") simp_all
  qed
  with Some show ?thesis by (simp add: markMissionClosed_def)
qed

lemma no_regress_apply_op:
  "op_ok opn ms \<Longrightarrow> no_regress ms (apply_op opn ms)"
  by (cases opn)
    (simp_all add: no_regress_registerMission no_regress_markMissionClosed
      no_regress_markMissionExported no_regress_updateMissionTelegramInfo)

text \<open>
  C4, as the code has it. Along every sequence of store operations (\<^verbatim>\<open>registerMission\<close>,
  \<^verbatim>\<open>markMissionClosed\<close>, \<^verbatim>\<open>markMissionExported\<close>, \<^verbatim>\<open>updateMissionTelegramInfo\<close>) in which
  \<^verbatim>\<open>markMissionClosed\<close> is not called for a mission that is exported at that moment, no
  mission's status moves backwards in the order active, closed, exported, and no record
  is lost. \<^verbatim>\<open>registerMission\<close> and \<^verbatim>\<open>markMissionExported\<close> never move a status backwards.
\<close>

theorem status_never_regresses:
  "closes_unexported ops ms \<Longrightarrow> no_regress ms (run_ops ops ms)"
proof (induction ops arbitrary: ms)
  case Nil
  then show ?case by (simp add: no_regress_refl)
next
  case (Cons opn ops)
  from Cons.prems have ok: "op_ok opn ms" and rest: "closes_unexported ops (apply_op opn ms)"
    by simp_all
  have "no_regress ms (apply_op opn ms)" using ok by (rule no_regress_apply_op)
  moreover have "no_regress (apply_op opn ms) (run_ops ops (apply_op opn ms))"
    using rest by (rule Cons.IH)
  ultimately show ?case by (auto intro: no_regress_trans)
qed

text \<open>
  The claim for every sequence fails: \<^verbatim>\<open>markMissionClosed\<close> has no guard on the current
  status, so after register, export, close the mission is back at \<open>closed\<close>.
\<close>

theorem status_regress_counterexample:
  "\<not> no_regress
       (run_ops [RegisterMission 1 ''thread-1'' ''Mission M'' 60000 None,
                 MarkMissionExported 70000 ''mission-1''] [])
       (run_ops [RegisterMission 1 ''thread-1'' ''Mission M'' 60000 None,
                 MarkMissionExported 70000 ''mission-1'',
                 MarkMissionClosed ''mission-1''] [])"
  by (simp add: registerMission_def markMissionExported_def markMissionClosed_def
      int_toString_def digit_char_def Let_def)

theorem status_never_regresses_witness:
  "closes_unexported [RegisterMission 1 ''thread-1'' ''Mission M'' 60000 None,
                      MarkMissionClosed ''mission-1'',
                      MarkMissionExported 70000 ''mission-1''] []
   \<and> no_regress []
        (run_ops [RegisterMission 1 ''thread-1'' ''Mission M'' 60000 None,
                  MarkMissionClosed ''mission-1'',
                  MarkMissionExported 70000 ''mission-1''] [])
   \<and> map status (run_ops [RegisterMission 1 ''thread-1'' ''Mission M'' 60000 None,
                  MarkMissionClosed ''mission-1'',
                  MarkMissionExported 70000 ''mission-1''] []) = [Exported]"
proof -
  have h: "closes_unexported [RegisterMission 1 ''thread-1'' ''Mission M'' 60000 None,
                      MarkMissionClosed ''mission-1'',
                      MarkMissionExported 70000 ''mission-1''] []"
    by (simp add: registerMission_def markMissionExported_def markMissionClosed_def
      getMissionById_def int_toString_def digit_char_def Let_def)
  from status_never_regresses [OF h] h show ?thesis
    by (simp add: registerMission_def markMissionExported_def markMissionClosed_def
      getMissionById_def int_toString_def digit_char_def Let_def)
qed

text \<open>
  The sweep itself can call \<^verbatim>\<open>markMissionClosed\<close> for an exported mission: with the two
  missions that share an id, the first iteration exports the first record, and the second
  iteration, which looks the id up again, sets that record back to \<open>closed\<close>.
\<close>

lemma sweep_closes_exported_twin:
  "map mission_id (missions world_twins) = [''mission-1'', ''mission-1'']
   \<and> map status (missions (world_of
        (processAll env_twins 120000
           (take 1 (getMissionsPastDeadline 120000 (missions world_twins))) world_twins)))
       = [Exported, Active]
   \<and> map status (missions (world_of (checkDeadlines env_twins 120000 world_twins)))
       = [Closed, Active]"
  by code_simp

section \<open>Votes\<close>

lemma putVote_Nil: "putVote v [] = [v]"
  by (simp add: putVote_def)

lemma putVote_Cons:
  "putVote v (x # xs) = (if judgeId x = judgeId v then v # xs else x # putVote v xs)"
proof (cases "judgeId x = judgeId v")
  case True
  then show ?thesis by (simp add: putVote_def)
next
  case False
  show ?thesis
  proof (cases "findIndex (\<lambda>y. judgeId y = judgeId v) xs < 0")
    case True
    with False show ?thesis by (simp add: putVote_def Let_def)
  next
    case False
    then have "nat (findIndex (\<lambda>y. judgeId y = judgeId v) xs + 1)
                 = Suc (nat (findIndex (\<lambda>y. judgeId y = judgeId v) xs))"
      by simp
    with False \<open>judgeId x \<noteq> judgeId v\<close> show ?thesis
      by (simp add: putVote_def Let_def)
  qed
qed

lemma judges_putVote:
  "set (map judgeId (putVote v vs)) = insert (judgeId v) (set (map judgeId vs))"
  by (induction vs) (auto simp: putVote_Nil putVote_Cons)

lemma distinct_putVote:
  "distinct (map judgeId vs) \<Longrightarrow> distinct (map judgeId (putVote v vs))"
proof (induction vs)
  case Nil
  then show ?case by (simp add: putVote_Nil)
next
  case (Cons x xs)
  show ?case
  proof (cases "judgeId x = judgeId v")
    case True
    with Cons.prems show ?thesis by (simp add: putVote_Cons)
  next
    case False
    from Cons.prems have "judgeId x \<notin> set (map judgeId xs)" and "distinct (map judgeId xs)"
      by simp_all
    with False Cons.IH show ?thesis
      using judges_putVote [of v xs] by (simp add: putVote_Cons)
  qed
qed

lemma filter_putVote:
  "distinct (map judgeId vs) \<Longrightarrow>
   filter (\<lambda>x. judgeId x = judgeId v) (putVote v vs) = [v]"
proof (induction vs)
  case Nil
  then show ?case by (simp add: putVote_Nil)
next
  case (Cons x xs)
  show ?case
  proof (cases "judgeId x = judgeId v")
    case True
    with Cons.prems have "judgeId v \<notin> judgeId ` set xs" by simp
    then have "\<forall>y\<in>set xs. judgeId y \<noteq> judgeId v" by (metis imageI)
    then have "filter (\<lambda>x. judgeId x = judgeId v) xs = []"
      by (simp add: filter_empty_conv)
    with True show ?thesis by (simp add: putVote_Cons)
  next
    case False
    with Cons show ?thesis by (simp add: putVote_Cons)
  qed
qed

text \<open>Every store function keeps the judges of each vote collection distinct.\<close>

lemma judges_distinct_update_first:
  assumes "judges_distinct subs"
    and "\<And>s. distinct (map judgeId (votes s)) \<Longrightarrow> distinct (map judgeId (votes (f s)))"
  shows "judges_distinct (update_first P f subs)"
  using assms by (induction subs) (auto simp: judges_distinct_def)

lemma reachable_judges_distinct:
  "reachable subs \<Longrightarrow> judges_distinct subs"
proof (induction rule: reachable.induct)
  case empty
  then show ?case by (simp add: judges_distinct_def)
next
  case create
  then show ?case by (simp add: judges_distinct_def createSubmission_def Let_def)
next
  case record_vote
  then show ?case
    by (auto simp: recordVote_def distinct_putVote split: option.splits
        intro!: judges_distinct_update_first)
next
  case remove_vote
  then show ?case
    by (auto simp: removeVote_def distinct_map_filter split: option.splits
        intro!: judges_distinct_update_first)
next
  case mark_exported
  then show ?case
    by (auto simp: judges_distinct_def markSubmissionsExported_def list_all_iff)
qed

lemma find_recordVote:
  "find (\<lambda>s. sub_id s = sid) (recordVote now sid j sc subs)
     = map_option (\<lambda>s. s\<lparr> votes := putVote \<lparr> judgeId = j, score = sc, timestamp = now \<rparr> (votes s) \<rparr>)
         (find (\<lambda>s. sub_id s = sid) subs)"
proof (cases "find (\<lambda>s. sub_id s = sid) subs")
  case None
  then show ?thesis by (simp add: recordVote_def)
next
  case (Some a)
  then show ?thesis by (simp add: recordVote_def find_update_first)
qed

lemma recordVote_single:
  assumes "find (\<lambda>s. sub_id s = sid) subs = Some s"
    and "distinct (map judgeId (votes s))"
  shows "\<exists>s'. find (\<lambda>s. sub_id s = sid) (recordVote now sid j sc subs) = Some s'
           \<and> votesBy j s' = [\<lparr> judgeId = j, score = sc, timestamp = now \<rparr>]
           \<and> distinct (map judgeId (votes s'))"
  using assms filter_putVote [of "votes s" "\<lparr> judgeId = j, score = sc, timestamp = now \<rparr>"]
  by (simp add: find_recordVote votesBy_def distinct_putVote)

lemma recordVotes_last:
  assumes "find (\<lambda>s. sub_id s = sid) subs = Some s"
    and "distinct (map judgeId (votes s))"
    and "cs \<noteq> []"
  shows "\<exists>s'. find (\<lambda>s. sub_id s = sid) (recordVotes cs sid j subs) = Some s'
           \<and> votesBy j s' = [\<lparr> judgeId = j, score = fst (last cs), timestamp = snd (last cs) \<rparr>]"
  using assms
proof (induction cs arbitrary: subs s)
  case Nil
  then show ?case by simp
next
  case (Cons c cs)
  obtain sc now where c: "c = (sc, now)" by (cases c)
  from recordVote_single [OF Cons.prems(1) Cons.prems(2), of now j sc]
  obtain s' where s': "find (\<lambda>s. sub_id s = sid) (recordVote now sid j sc subs) = Some s'"
    and v: "votesBy j s' = [\<lparr> judgeId = j, score = sc, timestamp = now \<rparr>]"
    and d: "distinct (map judgeId (votes s'))"
    by blast
  show ?case
  proof (cases "cs = []")
    case True
    with s' v c show ?thesis by simp
  next
    case False
    from Cons.IH [OF s' d False] False c show ?thesis by simp
  qed
qed

text \<open>
  C1. In every submission collection the program can build, for a stored submission
  (looked up by id as \<^verbatim>\<open>recordVote\<close> does) and a judge \<open>j\<close>: after any non-empty sequence of
  \<^verbatim>\<open>recordVote\<close> calls for that submission and judge, the submission's vote collection
  has exactly one entry whose judge id is \<open>j\<close>, and it carries the score and the
  timestamp of the last call.
\<close>

theorem recordVote_one_entry_last_wins:
  assumes "reachable subs"
    and "find (\<lambda>s. sub_id s = sid) subs = Some s"
    and "cs \<noteq> []"
  shows "map_option (votesBy j) (find (\<lambda>s. sub_id s = sid) (recordVotes cs sid j subs))
           = Some [\<lparr> judgeId = j, score = fst (last cs), timestamp = snd (last cs) \<rparr>]"
proof -
  from assms(1) have "judges_distinct subs" by (rule reachable_judges_distinct)
  moreover from assms(2) have "s \<in> set subs" by (simp add: find_in_set)
  ultimately have "distinct (map judgeId (votes s))"
    by (simp add: judges_distinct_def list_all_iff)
  from recordVotes_last [OF assms(2) this assms(3), of j] show ?thesis by auto
qed
theorem recordVote_one_entry_last_wins_witness:
  "reachable store_S
   \<and> find (\<lambda>s. sub_id s = ''sub-2-aaaa'') store_S \<noteq> None
   \<and> [(3, 10), (5, 20)] \<noteq> ([] :: (int \<times> int) list)
   \<and> map_option (votesBy ''judgeA'')
         (find (\<lambda>s. sub_id s = ''sub-2-aaaa'')
            (recordVotes [(3, 10), (5, 20)] ''sub-2-aaaa'' ''judgeA'' store_S))
       = Some [\<lparr> judgeId = ''judgeA'', score = 5, timestamp = 20 \<rparr>]
   \<and> map_option votes
         (find (\<lambda>s. sub_id s = ''sub-2-aaaa'')
            (recordVotes [(3, 10), (5, 20)] ''sub-2-aaaa'' ''judgeA'' store_S))
       = Some [\<lparr> judgeId = ''judgeB'', score = 2, timestamp = 11 \<rparr>,
               \<lparr> judgeId = ''judgeA'', score = 5, timestamp = 20 \<rparr>]"
proof -
  have r: "reachable store_S"
    unfolding store_S_def by (intro reachable.record_vote reachable.create reachable.empty)
  have f: "find (\<lambda>s. sub_id s = ''sub-2-aaaa'') store_S
             = Some (submission_S1\<lparr> votes := [\<lparr> judgeId = ''judgeB'', score = 2, timestamp = 11 \<rparr>] \<rparr>)"
    by code_simp
  have n: "[(3, 10), (5, 20)] \<noteq> ([] :: (int \<times> int) list)" by simp
  have v: "map_option votes
         (find (\<lambda>s. sub_id s = ''sub-2-aaaa'')
            (recordVotes [(3, 10), (5, 20)] ''sub-2-aaaa'' ''judgeA'' store_S))
       = Some [\<lparr> judgeId = ''judgeB'', score = 2, timestamp = 11 \<rparr>,
               \<lparr> judgeId = ''judgeA'', score = 5, timestamp = 20 \<rparr>]"
    by code_simp
  from recordVote_one_entry_last_wins [OF r f n, of "''judgeA''"] r f v show ?thesis by simp
qed

section \<open>Retraction\<close>

lemma removeVote_update_first:
  "removeVote sid j subs
     = update_first (\<lambda>s. sub_id s = sid)
         (\<lambda>s. s\<lparr> votes := filter (\<lambda>v. judgeId v \<noteq> j) (votes s) \<rparr>) subs"
  by (simp add: removeVote_def update_first_no_match split: option.splits)

lemma votesBy_after_filter:
  "votesBy j (s\<lparr> votes := filter (\<lambda>v. judgeId v \<noteq> j) (votes s) \<rparr>) = []"
  by (simp add: votesBy_def filter_empty_conv)

lemma removeVote_all_records:
  "distinct (map sub_id subs) \<Longrightarrow> s' \<in> set (removeVote sid j subs) \<Longrightarrow> sub_id s' = sid \<Longrightarrow>
   votesBy j s' = []"
proof (induction subs)
  case Nil
  then show ?case by (simp add: removeVote_update_first)
next
  case (Cons a subs)
  show ?case
  proof (cases "sub_id a = sid")
    case True
    with Cons.prems(1) have "sid \<notin> sub_id ` set subs" by simp
    with Cons.prems(3) have "s' \<notin> set subs" by (metis imageI)
    with Cons.prems(2) True show ?thesis
      by (simp add: removeVote_update_first votesBy_after_filter)
  next
    case False
    with Cons.prems(2,3) have "s' \<in> set (removeVote sid j subs)"
      by (auto simp: removeVote_update_first)
    moreover from Cons.prems(1) have "distinct (map sub_id subs)" by simp
    ultimately show ?thesis using Cons.IH Cons.prems(3) by blast
  qed
qed

lemma find_removeVote:
  "find (\<lambda>s. sub_id s = sid) (removeVote sid j subs)
     = map_option (\<lambda>s. s\<lparr> votes := filter (\<lambda>v. judgeId v \<noteq> j) (votes s) \<rparr>)
         (find (\<lambda>s. sub_id s = sid) subs)"
  by (simp add: removeVote_update_first find_update_first)

lemma removeVote_without_vote:
  "(\<forall>s\<in>set subs. sub_id s = sid \<longrightarrow> votesBy j s = []) \<Longrightarrow> removeVote sid j subs = subs"
proof (induction subs)
  case Nil
  then show ?case by (simp add: removeVote_update_first)
next
  case (Cons a subs)
  show ?case
  proof (cases "sub_id a = sid")
    case True
    with Cons.prems have "filter (\<lambda>v. judgeId v = j) (votes a) = []"
      by (simp add: votesBy_def)
    then have "filter (\<lambda>v. judgeId v \<noteq> j) (votes a) = votes a"
      by (simp add: filter_empty_conv filter_id_conv)
    with True show ?thesis by (simp add: removeVote_update_first)
  next
    case False
    with Cons show ?thesis by (simp add: removeVote_update_first)
  qed
qed

text \<open>
  C6. With submission ids that identify the stored submissions: after
  \<^verbatim>\<open>removeVote(s, j)\<close> no stored record of submission \<open>s\<close> has an entry of judge \<open>j\<close>, however
  many entries of \<open>j\<close> there were, so neither read of the store
  (\<^verbatim>\<open>getSubmissionByMessage\<close>, \<^verbatim>\<open>getSubmissionsByMission\<close>) shows one; the other entries of
  \<open>s\<close> stay as they were. When no entry of \<open>j\<close> exists, the collection is unchanged.
\<close>

theorem removeVote_leaves_no_entry:
  assumes "distinct (map sub_id subs)"
  shows "(\<forall>s'\<in>set (removeVote sid j subs). sub_id s' = sid \<longrightarrow> votesBy j s' = [])
       \<and> (\<forall>msg s'. getSubmissionByMessage msg (removeVote sid j subs) = Some s' \<longrightarrow>
             sub_id s' = sid \<longrightarrow> votesBy j s' = [])
       \<and> (\<forall>mid. \<forall>s'\<in>set (getSubmissionsByMission mid (removeVote sid j subs)).
             sub_id s' = sid \<longrightarrow> votesBy j s' = [])
       \<and> find (\<lambda>s. sub_id s = sid) (removeVote sid j subs)
           = map_option (\<lambda>s. s\<lparr> votes := filter (\<lambda>v. judgeId v \<noteq> j) (votes s) \<rparr>)
               (find (\<lambda>s. sub_id s = sid) subs)
       \<and> ((\<forall>s\<in>set subs. sub_id s = sid \<longrightarrow> votesBy j s = []) \<longrightarrow>
             removeVote sid j subs = subs)"
proof -
  have all: "\<forall>s'\<in>set (removeVote sid j subs). sub_id s' = sid \<longrightarrow> votesBy j s' = []"
    using assms removeVote_all_records by blast
  have by_msg: "\<forall>msg s'. getSubmissionByMessage msg (removeVote sid j subs) = Some s' \<longrightarrow>
             sub_id s' = sid \<longrightarrow> votesBy j s' = []"
    using all by (auto simp: getSubmissionByMessage_def dest: find_in_set)
  have by_mission: "\<forall>mid. \<forall>s'\<in>set (getSubmissionsByMission mid (removeVote sid j subs)).
             sub_id s' = sid \<longrightarrow> votesBy j s' = []"
    using all by (simp add: getSubmissionsByMission_def)
  from all by_msg by_mission show ?thesis
    using find_removeVote [of sid j subs] removeVote_without_vote [of subs sid j] by blast
qed

theorem removeVote_leaves_no_entry_witness:
  "distinct (map sub_id [submission_S1, submission_S2])
   \<and> map_option (votesBy ''judgeA'')
        (getSubmissionByMessage ''msg-1''
           (removeVote ''sub-2-aaaa'' ''judgeA'' [submission_S1, submission_S2])) = Some []
   \<and> map votes (getSubmissionsByMission ''mission-1''
           (removeVote ''sub-2-aaaa'' ''judgeA'' [submission_S1, submission_S2]))
       = [[\<lparr> judgeId = ''judgeB'', score = 2, timestamp = 11 \<rparr>],
          [\<lparr> judgeId = ''judgeA'', score = 5, timestamp = 12 \<rparr>]]
   \<and> removeVote ''sub-3-bbbb'' ''judgeB'' [submission_S1, submission_S2]
       = [submission_S1, submission_S2]"
proof -
  have d: "distinct (map sub_id [submission_S1, submission_S2])"
    by (simp add: submission_S1_def submission_S2_def)
  have g: "\<exists>s'. getSubmissionByMessage ''msg-1''
           (removeVote ''sub-2-aaaa'' ''judgeA'' [submission_S1, submission_S2]) = Some s'
           \<and> sub_id s' = ''sub-2-aaaa''"
    by (simp add: getSubmissionByMessage_def removeVote_def submission_S1_def submission_S2_def)
  have m: "map votes (getSubmissionsByMission ''mission-1''
           (removeVote ''sub-2-aaaa'' ''judgeA'' [submission_S1, submission_S2]))
       = [[\<lparr> judgeId = ''judgeB'', score = 2, timestamp = 11 \<rparr>],
          [\<lparr> judgeId = ''judgeA'', score = 5, timestamp = 12 \<rparr>]]"
    by code_simp
  have n: "\<forall>s\<in>set [submission_S1, submission_S2].
             sub_id s = ''sub-3-bbbb'' \<longrightarrow> votesBy ''judgeB'' s = []"
    by (simp add: votesBy_def submission_S1_def submission_S2_def)
  note t1 = removeVote_leaves_no_entry [OF d, of "''sub-2-aaaa''" "''judgeA''"]
  note t2 = removeVote_leaves_no_entry [OF d, of "''sub-3-bbbb''" "''judgeB''"]
  from g obtain s' where s': "getSubmissionByMessage ''msg-1''
           (removeVote ''sub-2-aaaa'' ''judgeA'' [submission_S1, submission_S2]) = Some s'"
    and i: "sub_id s' = ''sub-2-aaaa''"
    by blast
  from t1 have "\<forall>msg s'. getSubmissionByMessage msg
           (removeVote ''sub-2-aaaa'' ''judgeA'' [submission_S1, submission_S2]) = Some s' \<longrightarrow>
             sub_id s' = ''sub-2-aaaa'' \<longrightarrow> votesBy ''judgeA'' s' = []"
    by (rule conjunct1 [OF conjunct2])
  with s' i have e: "votesBy ''judgeA'' s' = []" by blast
  from t2 have "(\<forall>s\<in>set [submission_S1, submission_S2].
             sub_id s = ''sub-3-bbbb'' \<longrightarrow> votesBy ''judgeB'' s = []) \<longrightarrow>
             removeVote ''sub-3-bbbb'' ''judgeB'' [submission_S1, submission_S2]
               = [submission_S1, submission_S2]"
    by (rule conjunct2 [OF conjunct2 [OF conjunct2 [OF conjunct2]]])
  with n have u: "removeVote ''sub-3-bbbb'' ''judgeB'' [submission_S1, submission_S2]
               = [submission_S1, submission_S2]"
    by (rule rev_mp)
  show ?thesis
    unfolding s' u using e by (intro conjI d m) simp_all
qed

section \<open>Sums of scores are exact\<close>

lemma flog2_bounds:
  "1 \<le> n \<Longrightarrow> 0 \<le> flog2 n \<and> 2 ^ nat (flog2 n) \<le> n \<and> n < 2 * 2 ^ nat (flog2 n)"
proof (induction n rule: flog2.induct)
  case (1 n)
  show ?case
  proof (cases "n < 2")
    case True
    with "1.prems" have "n = 1" by simp
    then show ?thesis by (simp add: flog2.simps [of 1])
  next
    case False
    then have h: "1 \<le> n div 2" by simp
    from "1.IH" [OF False h]
    have ih: "0 \<le> flog2 (n div 2)" "2 ^ nat (flog2 (n div 2)) \<le> n div 2"
      "n div 2 < 2 * 2 ^ nat (flog2 (n div 2))"
      by simp_all
    from False have eq: "flog2 n = 1 + flog2 (n div 2)" by (simp add: flog2.simps [of n])
    from ih(1) have p: "nat (1 + flog2 (n div 2)) = Suc (nat (flog2 (n div 2)))" by simp
    from ih(2) have "2 * 2 ^ nat (flog2 (n div 2)) \<le> n" by linarith
    moreover from ih(3) have "n < 2 * (2 * 2 ^ nat (flog2 (n div 2)))" by linarith
    ultimately show ?thesis using ih(1) unfolding eq p by simp
  qed
qed

lemma round_half_even_of_int: "round_half_even (of_int k) = k"
  by (simp add: round_half_even_def)

lemma js_round_pos_int:
  assumes "1 \<le> n" and "n < 2 ^ 53"
  shows "js_round (of_int n) = of_int n"
proof -
  from flog2_bounds [OF assms(1)]
  have f0: "0 \<le> flog2 n" and lo: "2 ^ nat (flog2 n) \<le> n" and hi: "n < 2 * 2 ^ nat (flog2 n)"
    by simp_all
  have "(2::int) ^ nat (flog2 n) < 2 ^ 53" using lo assms(2) by linarith
  then have "nat (flog2 n) < 53" by (rule power_less_imp_less_exp [rotated]) simp
  then have le52: "flog2 n \<le> 52" by simp
  have one: "flog2 1 = 0" by (simp add: flog2.simps [of 1])
  have q: "quotient_of (of_int n) = (n, 1)" by simp
  from lo have "(of_int (2 ^ nat (flog2 n)) :: rat) \<le> of_int n"
    by (simp only: of_int_le_iff)
  then have "pow2 (flog2 n) \<le> of_int n" using f0 by (simp add: pow2_def)
  then have e: "binary_exponent (of_int n) = flog2 n"
    using q one by (simp add: binary_exponent_def)
  define s where "s = nat (52 - flog2 n)"
  have u: "pow2 (flog2 n - 52) = 1 / 2 ^ s"
  proof (cases "flog2 n = 52")
    case True
    then show ?thesis by (simp add: pow2_def s_def)
  next
    case False
    with le52 have "flog2 n - 52 < 0" by simp
    then show ?thesis by (simp add: pow2_def s_def)
  qed
  have "(of_int n :: rat) / (1 / 2 ^ s) = of_int (n * 2 ^ s)" by simp
  then have r: "round_half_even ((of_int n :: rat) / (1 / 2 ^ s)) = n * 2 ^ s"
    by (simp only: round_half_even_of_int)
  from assms(1) have pos: "(0::rat) < of_int n" by simp
  then have a: "\<bar>of_int n :: rat\<bar> = of_int n" and sg: "sgn (of_int n :: rat) = 1" and nz: "(of_int n :: rat) \<noteq> 0"
    by simp_all
  show ?thesis
    unfolding js_round_def Let_def a e u r sg using nz by simp
qed

lemma js_round_nat_int:
  assumes "0 \<le> n" and "n < 2 ^ 53"
  shows "js_round (of_int n) = of_int n"
proof (cases "n = 0")
  case True
  then show ?thesis by (simp add: js_round_def)
next
  case False
  with assms(1) have "1 \<le> n" by simp
  then show ?thesis using assms(2) by (rule js_round_pos_int)
qed

lemma foldl_js_add_exact:
  assumes "\<forall>x\<in>set xs. 0 \<le> x \<and> x \<le> b"
    and "0 \<le> a"
    and "a + int (length xs) * b < 2 ^ 53"
  shows "foldl js_add (of_int a) (map of_int xs) = of_int (a + sum_list xs)"
  using assms
proof (induction xs arbitrary: a)
  case Nil
  then show ?case by simp
next
  case (Cons x xs)
  from Cons.prems(1) have x: "0 \<le> x" "x \<le> b" and rest: "\<forall>y\<in>set xs. 0 \<le> y \<and> y \<le> b"
    by simp_all
  from x have b0: "0 \<le> b" by simp
  from Cons.prems(3) have bound: "a + b + int (length xs) * b < 2 ^ 53"
    by (simp add: algebra_simps)
  have "0 \<le> int (length xs) * b" using b0 by simp
  with bound x have small: "a + x < 2 ^ 53" by linarith
  have nonneg: "0 \<le> a + x" using Cons.prems(2) x by simp
  have step: "js_add (of_int a) (of_int x) = of_int (a + x)"
    using js_round_nat_int [OF nonneg small] by (simp add: js_add_def)
  from bound x have "a + x + int (length xs) * b < 2 ^ 53" by linarith
  from Cons.IH [OF rest nonneg this] step show ?case by (simp add: add.assoc)
qed

text \<open>
  With scores in the range of the voting surface (1 to 5) the sum of the scores is exact,
  so the cell is \<^verbatim>\<open>toFixed(2)\<close> of the JavaScript number nearest to the arithmetic mean.
\<close>

lemma avgScore_is_mean:
  assumes "votes s \<noteq> []"
    and "\<forall>v\<in>set (votes s). 1 \<le> score v \<and> score v \<le> 5"
    and "length (votes s) < 2 ^ 50"
  shows "avgScore s
           = toFixed2 (js_round (of_int (sum_list (map score (votes s))) / of_nat (length (votes s))))"
proof -
  have r: "\<forall>x\<in>set (map score (votes s)). 0 \<le> x \<and> x \<le> 5"
    using assms(2) by auto
  from assms(3) have "int (length (votes s)) < 2 ^ 50" by (simp add: nat_less_iff flip: of_nat_power)
  then have b: "0 + int (length (map score (votes s))) * 5 < 2 ^ 53" by simp
  from foldl_js_add_exact [OF r _ b]
  have "foldl js_add 0 (map of_int (map score (votes s))) = of_int (sum_list (map score (votes s)))"
    by simp
  then have "foldl js_add 0 (map (\<lambda>v. of_int (score v)) (votes s))
               = of_int (sum_list (map score (votes s)))"
    by (simp add: comp_def)
  with assms(1) show ?thesis by (simp add: avgScore_def js_div_def)
qed

section \<open>Export\<close>

lemma export_no_submissions:
  assumes "throws GetSpreadsheet = None"
    and "getSubmissionsByMission (mission_id m) (submissions w) = []"
  shows "exportMissionToSheets throws fmt now m w
           = (\<lparr> success = True, rowCount = 0, error = None \<rparr>,
              w\<lparr> missions := markMissionExported now (mission_id m) (missions w),
                 calls := calls w @ [MarkMissionExportedCall (mission_id m)] \<rparr>)"
  using assms by (simp add: exportMissionToSheets_def)

text \<open>An export of a mission with submissions that returns success has made all five calls.\<close>

lemma export_success:
  assumes "success (fst (exportMissionToSheets throws fmt now m w))"
    and "getSubmissionsByMission (mission_id m) (submissions w) = subs"
    and "subs \<noteq> []"
  shows "exportMissionToSheets throws fmt now m w
           = (\<lparr> success = True, rowCount = length subs, error = None \<rparr>,
              w\<lparr> sheetsByTitle := (sheetsByTitle w)(sanitizeTitle (title m) \<mapsto>
                     \<lparr> headerValues = map trim (headers (judgeIdArray subs)),
                       sheetRows = map (buildRow fmt (judgeIdArray subs)) subs \<rparr>),
                 missions := markMissionExported now (mission_id m) (missions w),
                 submissions := markSubmissionsExported (mission_id m) (submissions w),
                 calls := calls w @
                   [if sheetsByTitle w (sanitizeTitle (title m)) = None
                    then AddSheetCall (sanitizeTitle (title m))
                    else ClearCall (sanitizeTitle (title m)),
                    SetHeaderRowCall (sanitizeTitle (title m)) (headers (judgeIdArray subs)),
                    AddRowsCall (sanitizeTitle (title m))
                      (map (buildRow fmt (judgeIdArray subs)) subs),
                    MarkMissionExportedCall (mission_id m),
                    MarkSubmissionsExportedCall (mission_id m)] \<rparr>)"
proof -
  let ?t = "sanitizeTitle (title m)"
  from assms have g: "throws GetSpreadsheet = None"
    by (simp add: exportMissionToSheets_def failed_def split: option.splits)
  from assms g have n: "sheetLookup (sheetsByTitle w) ?t \<noteq> NotATab"
    by (auto simp: exportMissionToSheets_def Let_def failed_def)
  show ?thesis
  proof (cases "sheetsByTitle w ?t")
    case None
    with n have l: "sheetLookup (sheetsByTitle w) ?t = NoTab"
      by (simp add: sheetLookup_def split: if_splits)
    from assms g None l show ?thesis
      by (simp add: exportMissionToSheets_def Let_def failed_def setHeaderRowThrows_def
          addSheet_def setHeaderRow_def addRows_def split: option.splits)
  next
    case (Some sh)
    then have l: "sheetLookup (sheetsByTitle w) ?t = Tab sh"
      by (simp add: sheetLookup_def)
    from assms g Some l show ?thesis
      by (simp add: exportMissionToSheets_def Let_def failed_def setHeaderRowThrows_def
          clear_def setHeaderRow_def addRows_def split: option.splits)
  qed
qed

text \<open>
  When no remote call throws, the export of a mission with submissions returns success
  unless the title is an inherited name without a tab or two header cells coincide.
\<close>

lemma export_succeeds:
  assumes "\<forall>c. throws c = None"
    and "getSubmissionsByMission (mission_id m) (submissions w) = subs"
    and "subs \<noteq> []"
    and "sheetLookup (sheetsByTitle w) (sanitizeTitle (title m)) \<noteq> NotATab"
    and "duplicateHeader (map trim (headers (judgeIdArray subs))) = None"
  shows "success (fst (exportMissionToSheets throws fmt now m w))"
  using assms
  by (simp add: exportMissionToSheets_def Let_def setHeaderRowThrows_def)

lemma getMissionById_markMissionExported:
  "getMissionById mid (markMissionExported now mid ms)
     = map_option (\<lambda>m. m\<lparr> status := Exported, exportedAt := Some now \<rparr>) (getMissionById mid ms)"
  by (cases "find (\<lambda>m. mission_id m = mid) ms")
    (simp_all add: getMissionById_def markMissionExported_def find_update_first)

lemma getMissionById_markMissionClosed:
  "getMissionById mid (markMissionClosed mid ms)
     = map_option (\<lambda>m. m\<lparr> status := Closed \<rparr>) (getMissionById mid ms)"
  by (cases "find (\<lambda>m. mission_id m = mid) ms")
    (simp_all add: getMissionById_def markMissionClosed_def find_update_first)

text \<open>
  C10. For a mission with no submission, when the spreadsheet is reached
  (\<^verbatim>\<open>getSpreadsheet\<close> returns): \<^verbatim>\<open>exportMissionToSheets\<close> returns success with row count 0;
  the only call it makes is \<^verbatim>\<open>markMissionExported\<close>, so no tab is created, cleared or
  written and \<^verbatim>\<open>markSubmissionsExported\<close> is not called; the document and the submissions
  are as before, and the stored mission with that id has status \<open>exported\<close>.
\<close>

theorem export_without_submissions:
  assumes "throws GetSpreadsheet = None"
    and "getSubmissionsByMission (mission_id m) (submissions w) = []"
  shows "fst (exportMissionToSheets throws fmt now m w)
           = \<lparr> success = True, rowCount = 0, error = None \<rparr>
       \<and> calls (snd (exportMissionToSheets throws fmt now m w))
           = calls w @ [MarkMissionExportedCall (mission_id m)]
       \<and> sheetsByTitle (snd (exportMissionToSheets throws fmt now m w)) = sheetsByTitle w
       \<and> submissions (snd (exportMissionToSheets throws fmt now m w)) = submissions w
       \<and> missions (snd (exportMissionToSheets throws fmt now m w))
           = markMissionExported now (mission_id m) (missions w)
       \<and> map_option status
            (getMissionById (mission_id m) (missions (snd (exportMissionToSheets throws fmt now m w))))
           = map_option (\<lambda>x. Exported) (getMissionById (mission_id m) (missions w))"
  using assms
  by (simp add: export_no_submissions getMissionById_markMissionExported
      option.map_comp comp_def)

theorem export_without_submissions_witness:
  "(\<lambda>c. None :: string option) GetSpreadsheet = None
   \<and> getSubmissionsByMission (mission_id mission_E) (submissions world_E) = []
   \<and> fst (exportMissionToSheets (\<lambda>c. None) int_toString 130000 mission_E world_E)
       = \<lparr> success = True, rowCount = 0, error = None \<rparr>
   \<and> calls (snd (exportMissionToSheets (\<lambda>c. None) int_toString 130000 mission_E world_E))
       = [MarkMissionExportedCall ''mission-5'']
   \<and> map_option status (getMissionById ''mission-5''
         (missions (snd (exportMissionToSheets (\<lambda>c. None) int_toString 130000 mission_E world_E))))
       = Some Exported"
proof -
  have h1: "(\<lambda>c. None :: string option) GetSpreadsheet = None" by simp
  have h2: "getSubmissionsByMission (mission_id mission_E) (submissions world_E) = []"
    by code_simp
  have i: "mission_id mission_E = ''mission-5''" by (simp add: mission_E_def)
  have c: "calls world_E = []" by (simp add: world_E_def)
  have g: "getMissionById ''mission-5'' (missions world_E) = Some mission_E"
    by (simp add: getMissionById_def world_E_def mission_E_def mission_M_def)
  from export_without_submissions [OF h1 h2, of int_toString 130000] h2
  show ?thesis by (simp add: i c g getMissionById_markMissionExported)
qed

section \<open>The two-decimal rendering\<close>

lemma digit_value_digit_char: "digit_value (digit_char d) = d mod 10"
proof -
  have "\<forall>k \<in> set [0..<10]. digit_value (digit_char k) = k" by code_simp
  moreover have "d mod 10 \<in> set [0..<10]" by simp
  ultimately have "digit_value (digit_char (d mod 10)) = d mod 10" by blast
  then show ?thesis by (simp add: digit_char_def)
qed

declare nat_toString.simps [simp del]

lemma nat_toString_small: "n < 10 \<Longrightarrow> nat_toString n = [digit_char n]"
  by (subst nat_toString.simps) (simp del: nat_toString.simps)

lemma nat_toString_step: "10 \<le> n \<Longrightarrow> nat_toString n = nat_toString (n div 10) @ [digit_char n]"
  by (subst nat_toString.simps) (simp del: nat_toString.simps)

lemma read_nat_snoc: "read_nat (s @ [c]) = 10 * read_nat s + digit_value c"
  by (simp add: read_nat_def)

lemma read_nat_nat_toString: "read_nat (nat_toString n) = n"
proof (induction n rule: nat_toString.induct)
  case (1 n)
  show ?case
  proof (cases "n < 10")
    case True
    then show ?thesis
      by (simp add: nat_toString_small read_nat_def digit_value_digit_char)
  next
    case False
    then have "nat_toString n = nat_toString (n div 10) @ [digit_char n]"
      by (simp add: nat_toString_step)
    with "1.IH" [OF False] show ?thesis
      by (simp add: read_nat_snoc digit_value_digit_char)
  qed
qed

lemma length_nat_toString: "100 \<le> n \<Longrightarrow> 3 \<le> length (nat_toString n)"
proof -
  assume h: "100 \<le> n"
  then have a: "nat_toString n = nat_toString (n div 10) @ [digit_char n]"
    by (simp add: nat_toString_step)
  from h have "10 \<le> n div 10" using div_le_mono [of 100 n 10] by simp
  then have b: "nat_toString (n div 10) = nat_toString (n div 10 div 10) @ [digit_char (n div 10)]"
    by (rule nat_toString_step)
  have "1 \<le> length (nat_toString (n div 10 div 10))"
    by (subst nat_toString.simps) simp
  with a b show ?thesis by simp
qed

text \<open>
  \<open>toFixed2\<close> of a number that is not negative: the decimal digits of the integer part of
  \<open>n / 100\<close>, a point, and the two digits of \<open>n mod 100\<close>, where \<open>n\<close> is the number times 100,
  rounded to the nearest integer (upwards on a tie).
\<close>

lemma toFixed2_digits:
  assumes "0 \<le> x" and "n = nat \<lfloor>x * 100 + 1 / 2\<rfloor>"
  shows "toFixed2 x = nat_toString (n div 100) @ ''.'' @ [digit_char (n div 10), digit_char n]"
proof -
  define padded where "padded = replicate (3 - length (nat_toString n)) CHR ''0'' @ nat_toString n"
  from assms(1) have a: "\<bar>x\<bar> = x" and p: "\<not> x < 0" by simp_all
  have unfold: "toFixed2 x = take (length padded - 2) padded @ ''.'' @ drop (length padded - 2) padded"
    unfolding toFixed2_def Let_def a padded_def assms(2) using p by simp
  have zero: "nat_toString 0 = [CHR ''0'']" "digit_char 0 = CHR ''0''"
    by (simp_all add: nat_toString_small digit_char_def)
  consider "n < 10" | "10 \<le> n \<and> n < 100" | "100 \<le> n" by linarith
  then have "padded = nat_toString (n div 100) @ [digit_char (n div 10), digit_char n]"
  proof cases
    case 1
    then have m: "nat_toString n = [digit_char n]" by (rule nat_toString_small)
    from 1 have z: "n div 100 = 0" "n div 10 = 0" by simp_all
    have "padded = [CHR ''0'', CHR ''0'', digit_char n]"
      unfolding padded_def m by (simp add: numeral_3_eq_3)
    then show ?thesis unfolding z zero by simp
  next
    case 2
    then have "n div 10 < 10" by (simp add: less_mult_imp_div_less)
    then have "nat_toString (n div 10) = [digit_char (n div 10)]" by (rule nat_toString_small)
    with 2 have m: "nat_toString n = [digit_char (n div 10), digit_char n]"
      by (simp add: nat_toString_step)
    from 2 have z: "n div 100 = 0" by simp
    have "padded = [CHR ''0'', digit_char (n div 10), digit_char n]"
      unfolding padded_def m by (simp add: numeral_3_eq_3)
    then show ?thesis unfolding z zero by simp
  next
    case 3
    then have s1: "nat_toString n = nat_toString (n div 10) @ [digit_char n]"
      by (simp add: nat_toString_step)
    from 3 have "10 \<le> n div 10" using div_le_mono [of 100 n 10] by simp
    then have s2: "nat_toString (n div 10) = nat_toString (n div 10 div 10) @ [digit_char (n div 10)]"
      by (rule nat_toString_step)
    have d: "n div 10 div 10 = n div 100" by (simp add: div_mult2_eq)
    from s1 s2 d have m: "nat_toString n = nat_toString (n div 100) @ [digit_char (n div 10), digit_char n]"
      by simp
    have "3 \<le> length (nat_toString n)" using 3 by (rule length_nat_toString)
    then have "padded = nat_toString n" unfolding padded_def by simp
    with m show ?thesis by simp
  qed
  then show ?thesis unfolding unfold by simp
qed

text \<open>Read back, the rendering is within half a hundredth of the number.\<close>

lemma toFixed2_reads_back:
  assumes "0 \<le> x"
  shows "\<exists>ip frac. toFixed2 x = ip @ ''.'' @ frac \<and> length frac = 2
           \<and> \<bar>rat_of_nat (read_nat (ip @ frac)) / 100 - x\<bar> \<le> 1 / 200"
proof -
  define n where "n = nat \<lfloor>x * 100 + 1 / 2\<rfloor>"
  let ?ip = "nat_toString (n div 100)"
  let ?frac = "[digit_char (n div 10), digit_char n]"
  have shape: "toFixed2 x = ?ip @ ''.'' @ ?frac"
    using assms n_def by (rule toFixed2_digits)
  have "read_nat (?ip @ ?frac) = 10 * (10 * (n div 100) + (n div 10) mod 10) + n mod 10"
    using read_nat_snoc [of "?ip @ [digit_char (n div 10)]" "digit_char n"]
      read_nat_snoc [of ?ip "digit_char (n div 10)"]
    by (simp add: read_nat_nat_toString digit_value_digit_char)
  also have "\<dots> = n"
  proof -
    have "n div 100 = n div 10 div 10"
      using div_mult2_eq [of n 10 10] by simp
    then have "n div 10 = 10 * (n div 100) + n div 10 mod 10"
      using div_mult_mod_eq [of "n div 10" 10] by (simp only: mult.commute)
    then show ?thesis using div_mult_mod_eq [of n 10] by simp
  qed
  finally have rd: "read_nat (?ip @ ?frac) = n" .
  from assms have nn: "0 \<le> \<lfloor>x * 100 + 1 / 2\<rfloor>" by simp
  then have "of_nat n = (of_int \<lfloor>x * 100 + 1 / 2\<rfloor> :: rat)"
    by (simp add: n_def)
  moreover have "of_int \<lfloor>x * 100 + 1 / 2\<rfloor> \<le> x * 100 + 1 / 2"
    and "x * 100 + 1 / 2 < of_int \<lfloor>x * 100 + 1 / 2\<rfloor> + 1"
    by linarith+
  ultimately have "\<bar>(of_nat n :: rat) - x * 100\<bar> \<le> 1 / 2" by linarith
  then have "\<bar>(of_nat n :: rat) / 100 - x\<bar> \<le> 1 / 200" by (simp add: abs_le_iff field_simps)
  with shape rd show ?thesis by (intro exI [of _ ?ip] exI [of _ ?frac]) simp
qed

text \<open>Means that are not whole numbers, a tie included.\<close>

lemma avgScore_examples:
  "avgScore (submission_S1\<lparr> votes := [\<lparr> judgeId = ''a'', score = 4, timestamp = 1 \<rparr>,
                                        \<lparr> judgeId = ''b'', score = 5, timestamp = 2 \<rparr>] \<rparr>) = ''4.50''
   \<and> avgScore (submission_S1\<lparr> votes := [\<lparr> judgeId = ''a'', score = 1, timestamp = 1 \<rparr>,
                                          \<lparr> judgeId = ''b'', score = 1, timestamp = 2 \<rparr>,
                                          \<lparr> judgeId = ''c'', score = 2, timestamp = 3 \<rparr>] \<rparr>) = ''1.33''
   \<and> avgScore (submission_S1\<lparr> votes := [\<lparr> judgeId = ''a'', score = 5, timestamp = 1 \<rparr>,
                                          \<lparr> judgeId = ''b'', score = 5, timestamp = 2 \<rparr>,
                                          \<lparr> judgeId = ''c'', score = 4, timestamp = 3 \<rparr>] \<rparr>) = ''4.67''
   \<and> avgScore (submission_S1\<lparr> votes := map (\<lambda>k. \<lparr> judgeId = nat_toString k,
                                                            score = (if k = 0 then 2 else 1),
                                                            timestamp = 1 \<rparr>) [0..<8] \<rparr>) = ''1.13''
   \<and> avgScore (submission_S1\<lparr> votes := [] \<rparr>) = ''N/A''
   \<and> toFixed2 (js_div 41 40) = ''1.02''"
  by code_simp

section \<open>The rounding error of a quotient\<close>

lemma pow2_powi: "pow2 e = 2 powi e"
  by (simp add: pow2_def power_int_def field_simps)

lemma pow2_pos: "0 < pow2 e"
  by (simp add: pow2_def)

lemma pow2_diff: "pow2 (a - b) = pow2 a / pow2 b"
  by (simp add: pow2_powi power_int_diff)

lemma pow2_nat: "0 \<le> e \<Longrightarrow> pow2 e = 2 ^ nat e"
  by (simp add: pow2_def)

lemma round_half_even_near: "\<bar>of_int (round_half_even q) - q\<bar> \<le> 1 / 2"
proof -
  have "of_int \<lfloor>q\<rfloor> \<le> q" and "q < of_int \<lfloor>q\<rfloor> + 1" by linarith+
  then show ?thesis
    by (simp add: round_half_even_def Let_def abs_le_iff)
qed

lemma binary_exponent_bounds:
  assumes "0 < q"
  shows "pow2 (binary_exponent q) \<le> q \<and> q < 2 * pow2 (binary_exponent q)"
proof -
  obtain a b where ab: "quotient_of q = (a, b)" by (cases "quotient_of q")
  have b: "0 < b" using ab by (rule quotient_of_denom_pos)
  have q: "q = of_int a / of_int b" using ab by (rule quotient_of_div)
  have a: "0 < a" using assms b q by (simp add: zero_less_divide_iff)
  from a have "1 \<le> a" by simp
  from flog2_bounds [OF this]
  have fa: "0 \<le> flog2 a" and alo: "2 ^ nat (flog2 a) \<le> a" and ahi: "a < 2 * 2 ^ nat (flog2 a)"
    by simp_all
  from b have "1 \<le> b" by simp
  from flog2_bounds [OF this]
  have fb: "0 \<le> flog2 b" and blo: "2 ^ nat (flog2 b) \<le> b" and bhi: "b < 2 * 2 ^ nat (flog2 b)"
    by simp_all
  define A :: rat where "A = 2 ^ nat (flog2 a)"
  define B :: rat where "B = 2 ^ nat (flog2 b)"
  have Apos: "0 < A" and Bpos: "0 < B" by (simp_all add: A_def B_def)
  from alo have "(of_int (2 ^ nat (flog2 a)) :: rat) \<le> of_int a" by (simp only: of_int_le_iff)
  then have alo': "A \<le> of_int a" by (simp add: A_def)
  from ahi have "(of_int a :: rat) < of_int (2 * 2 ^ nat (flog2 a))" by (simp only: of_int_less_iff)
  then have ahi': "of_int a < 2 * A" by (simp add: A_def)
  from blo have "(of_int (2 ^ nat (flog2 b)) :: rat) \<le> of_int b" by (simp only: of_int_le_iff)
  then have blo': "B \<le> of_int b" by (simp add: B_def)
  from bhi have "(of_int b :: rat) < of_int (2 * 2 ^ nat (flog2 b))" by (simp only: of_int_less_iff)
  then have bhi': "of_int b < 2 * B" by (simp add: B_def)
  have bq: "(0::rat) < of_int b" using b by simp
  define e0 where "e0 = flog2 a - flog2 b"
  have p0: "pow2 e0 = A / B"
    unfolding e0_def pow2_diff by (simp add: pow2_nat fa fb A_def B_def)
  have "of_int a * B < (2 * A) * of_int b"
    using ahi' blo' Bpos a by (intro mult_less_le_imp_less) simp_all
  then have upper: "q < 2 * pow2 e0"
    unfolding p0 q using bq Bpos by (simp add: field_simps)
  have "A * of_int b < of_int a * (2 * B)"
    using alo' bhi' Apos b by (intro mult_le_less_imp_less) simp_all
  then have lower: "pow2 e0 / 2 < q"
    unfolding p0 q using bq Bpos by (simp add: field_simps)
  have "pow2 1 = 2" by (simp add: pow2_def)
  then have half: "pow2 (e0 - 1) = pow2 e0 / 2"
    by (simp only: pow2_diff)
  have be: "binary_exponent q = (if pow2 e0 \<le> q then e0 else e0 - 1)"
    by (simp add: binary_exponent_def ab e0_def Let_def)
  show ?thesis
  proof (cases "pow2 e0 \<le> q")
    case True
    with upper be show ?thesis by simp
  next
    case False
    with lower be half show ?thesis by simp
  qed
qed

text \<open>
  Rounding a positive number to a JavaScript number moves it by at most a \<open>2 ^ 53\<close>th of
  itself.
\<close>

lemma js_round_error:
  assumes "0 < q"
  shows "\<bar>js_round q - q\<bar> \<le> q / 2 ^ 53"
proof -
  define e where "e = binary_exponent q"
  define u where "u = pow2 (e - 52)"
  define m where "m = round_half_even (q / u)"
  from assms have absq: "\<bar>q\<bar> = q" and sq: "sgn q = 1" and nz: "q \<noteq> 0" by simp_all
  have upos: "0 < u" by (simp add: u_def pow2_pos)
  have "pow2 52 = 2 ^ 52" by (simp add: pow2_def)
  then have u: "u = pow2 e / 2 ^ 52" by (simp only: u_def pow2_diff)
  have lo: "pow2 e \<le> q" using binary_exponent_bounds [OF assms] by (simp add: e_def)
  have r: "js_round q = of_int m * u"
    by (simp add: js_round_def nz absq sq Let_def m_def u_def e_def)
  have "\<bar>of_int m - q / u\<bar> \<le> 1 / 2" unfolding m_def by (rule round_half_even_near)
  then have "\<bar>of_int m - q / u\<bar> * u \<le> 1 / 2 * u"
    using upos by (intro mult_right_mono) simp_all
  moreover have "\<bar>of_int m - q / u\<bar> * u = \<bar>of_int m * u - q\<bar>"
  proof -
    have "\<bar>of_int m - q / u\<bar> * u = \<bar>(of_int m - q / u) * u\<bar>"
      using upos by (simp add: abs_mult)
    also have "(of_int m - q / u) * u = of_int m * u - q"
      using upos by (simp add: field_simps)
    finally show ?thesis .
  qed
  ultimately have "\<bar>js_round q - q\<bar> \<le> u / 2" by (simp add: r)
  also have "u / 2 = pow2 e / 2 ^ 53" by (simp add: u)
  also have "\<dots> \<le> q / 2 ^ 53" using lo by (simp add: divide_right_mono)
  finally show ?thesis .
qed

lemma sum_list_scores_bounds:
  "\<forall>x\<in>set xs. 1 \<le> x \<and> x \<le> (5::int)
    \<Longrightarrow> int (length xs) \<le> sum_list xs \<and> sum_list xs \<le> 5 * int (length xs)"
  by (induction xs) auto

text \<open>
  The average cell of a submission with votes: digits, a point and two digits which, read
  as hundredths, are within half a hundredth (and the rounding error of the division) of
  the mean of the scores.
\<close>

lemma avgScore_within_half_a_hundredth:
  assumes "votes s \<noteq> []"
    and "\<forall>v\<in>set (votes s). 1 \<le> score v \<and> score v \<le> 5"
    and "length (votes s) < 2 ^ 50"
  shows "\<exists>ip frac. avgScore s = ip @ ''.'' @ frac \<and> length frac = 2
           \<and> \<bar>rat_of_nat (read_nat (ip @ frac)) / 100
                - rat_of_int (sum_list (map score (votes s))) / rat_of_nat (length (votes s))\<bar>
               \<le> 1 / 200 + 5 / 2 ^ 53"
proof -
  define total where "total = sum_list (map score (votes s))"
  define k where "k = length (votes s)"
  define mean :: rat where "mean = of_int total / of_nat k"
  have kpos: "0 < k" using assms(1) by (simp add: k_def)
  have "\<forall>x\<in>set (map score (votes s)). 1 \<le> x \<and> x \<le> 5" using assms(2) by simp
  from sum_list_scores_bounds [OF this]
  have tlo: "int k \<le> total" and thi: "total \<le> 5 * int k" by (simp_all add: total_def k_def)
  have kq: "(0::rat) < of_nat k" using kpos by simp
  from tlo have "(of_int (int k) :: rat) \<le> of_int total" by (simp only: of_int_le_iff)
  then have mlo: "1 \<le> mean" using kq by (simp add: mean_def field_simps)
  from thi have "(of_int total :: rat) \<le> of_int (5 * int k)" by (simp only: of_int_le_iff)
  then have mhi: "mean \<le> 5" using kq by (simp add: mean_def field_simps)
  from mlo have mpos: "0 < mean" by simp
  have e: "\<bar>js_round mean - mean\<bar> \<le> mean / 2 ^ 53" using mpos by (rule js_round_error)
  have "mean / 2 ^ 53 \<le> 5 / 2 ^ 53" using mhi by (simp add: divide_right_mono)
  with e have e5: "\<bar>js_round mean - mean\<bar> \<le> 5 / 2 ^ 53" by linarith
  have "mean / 2 ^ 53 \<le> mean" using mpos by (simp add: field_simps)
  with e have "0 \<le> js_round mean" by linarith
  from toFixed2_reads_back [OF this]
  obtain ip frac where shape: "toFixed2 (js_round mean) = ip @ ''.'' @ frac" "length frac = 2"
    and near: "\<bar>of_nat (read_nat (ip @ frac)) / 100 - js_round mean\<bar> \<le> 1 / 200"
    by blast
  have "avgScore s = toFixed2 (js_round mean)"
    unfolding mean_def total_def k_def using assms by (rule avgScore_is_mean)
  moreover from near e5
  have "\<bar>of_nat (read_nat (ip @ frac)) / 100 - mean\<bar> \<le> 1 / 200 + 5 / 2 ^ 53" by linarith
  ultimately have fin: "avgScore s = ip @ ''.'' @ frac \<and> length frac = 2
      \<and> \<bar>rat_of_nat (read_nat (ip @ frac)) / 100 - mean\<bar> \<le> 1 / 200 + 5 / 2 ^ 53"
    using shape by (simp only: simp_thms)
  show ?thesis
    apply (rule exI [of _ ip])
    apply (rule exI [of _ frac])
    using fin unfolding mean_def total_def k_def by assumption
qed

section \<open>Rows and judge columns\<close>

lemma set_set_add: "set (set_add xs x) = insert x (set xs)"
  by (auto simp: set_add_def)

lemma distinct_set_add: "distinct xs \<Longrightarrow> distinct (set_add xs x)"
  by (simp add: set_add_def)

lemma set_add_votes:
  "set (foldl (\<lambda>ids v. set_add ids (judgeId v)) acc vs) = set acc \<union> judgeId ` set vs"
  by (induction vs arbitrary: acc) (auto simp: set_set_add)

lemma distinct_add_votes:
  "distinct acc \<Longrightarrow> distinct (foldl (\<lambda>ids v. set_add ids (judgeId v)) acc vs)"
  by (induction vs arbitrary: acc) (simp_all add: distinct_set_add)

lemma set_add_submissions:
  "set (foldl (\<lambda>judgeIds s. foldl (\<lambda>ids v. set_add ids (judgeId v)) judgeIds (votes s)) acc subs)
     = set acc \<union> (\<Union>s\<in>set subs. judgeId ` set (votes s))"
  by (induction subs arbitrary: acc) (auto simp: set_add_votes)

lemma distinct_add_submissions:
  "distinct acc \<Longrightarrow>
   distinct (foldl (\<lambda>judgeIds s. foldl (\<lambda>ids v. set_add ids (judgeId v)) judgeIds (votes s)) acc subs)"
  by (induction subs arbitrary: acc) (simp_all add: distinct_add_votes)

lemma judgeIdArray_set:
  "set (judgeIdArray subs) = (\<Union>s\<in>set subs. judgeId ` set (votes s))"
  by (simp add: judgeIdArray_def set_add_submissions)

lemma judgeIdArray_distinct: "distinct (judgeIdArray subs)"
  by (simp add: judgeIdArray_def distinct_add_submissions)

lemma judgeIdArray_sorted: "sorted (judgeIdArray subs)"
  by (simp add: judgeIdArray_def)

lemma length_buildRow: "length (buildRow fmt judges s) = 8 + length judges"
  by (simp add: buildRow_def judgeScores_def)

lemma buildRow_id: "buildRow fmt judges s ! 0 = sub_id s"
  by (simp add: buildRow_def)

lemma buildRow_average: "buildRow fmt judges s ! 7 = avgScore s"
  by (simp add: buildRow_def)

lemma buildRow_judge:
  "k < length judges \<Longrightarrow>
   buildRow fmt judges s ! (8 + k)
     = (case find (\<lambda>v. judgeId v = judges ! k) (votes s) of
          Some v \<Rightarrow> int_toString (score v) | None \<Rightarrow> [])"
proof -
  assume k: "k < length judges"
  have "buildRow fmt judges s ! (8 + k) = judgeScores judges s ! k"
    unfolding buildRow_def by (simp add: nth_append)
  with k show ?thesis by (simp add: judgeScores_def)
qed

lemma avgScore_cases:
  "avgScore s =
     (if votes s = [] then ''N/A''
      else toFixed2 (js_div (foldl js_add 0 (map (\<lambda>v. of_int (score v)) (votes s)))
                            (of_nat (length (votes s)))))"
  by (simp add: avgScore_def)


text \<open>
  What an export that returns success has written, for a mission with at least one
  submission: one row per submission, in stored order, under the eight fixed columns and
  one column for each judge id found in the votes of the mission's submissions (sorted,
  none twice). In the row of a submission the cell \<open>Average Score\<close> is \<open>N/A\<close> when the
  submission has no vote, and otherwise the sum of its scores divided by their number, as
  JavaScript numbers, rendered by \<^verbatim>\<open>toFixed(2)\<close>. The cell of a judge is that judge's score
  on the submission, and empty when the judge cast no vote on it.
\<close>

lemma export_success_rows:
  assumes "success (fst (exportMissionToSheets throws fmt now m w))"
    and "subs = getSubmissionsByMission (mission_id m) (submissions w)"
    and "subs \<noteq> []"
    and "judges = judgeIdArray subs"
  shows "\<exists>sh. sheetsByTitle (snd (exportMissionToSheets throws fmt now m w)) (sanitizeTitle (title m))
                = Some sh
       \<and> length (sheetRows sh) = length subs
       \<and> headerValues sh = map trim (headers judges)
       \<and> length (headerValues sh) = 8 + length judges
       \<and> sorted judges \<and> distinct judges
       \<and> set judges = (\<Union>s\<in>set subs. judgeId ` set (votes s))
       \<and> (\<forall>i<length subs.
             length (sheetRows sh ! i) = 8 + length judges
           \<and> sheetRows sh ! i ! 0 = sub_id (subs ! i)
           \<and> sheetRows sh ! i ! 7 =
               (if votes (subs ! i) = [] then ''N/A''
                else toFixed2 (js_div (foldl js_add 0 (map (\<lambda>v. of_int (score v)) (votes (subs ! i))))
                                      (of_nat (length (votes (subs ! i))))))
           \<and> (votes (subs ! i) \<noteq> []
                \<and> (\<forall>v\<in>set (votes (subs ! i)). 1 \<le> score v \<and> score v \<le> 5)
                \<and> length (votes (subs ! i)) < 2 ^ 50 \<longrightarrow>
               sheetRows sh ! i ! 7 =
                 toFixed2 (js_round (of_int (sum_list (map score (votes (subs ! i))))
                                     / of_nat (length (votes (subs ! i))))))
           \<and> (\<forall>k<length judges.
                 sheetRows sh ! i ! (8 + k) =
                   (case find (\<lambda>v. judgeId v = judges ! k) (votes (subs ! i)) of
                      Some v \<Rightarrow> int_toString (score v) | None \<Rightarrow> [])
               \<and> (judges ! k \<notin> judgeId ` set (votes (subs ! i)) \<longrightarrow>
                    sheetRows sh ! i ! (8 + k) = [])))"
proof -
  let ?sh = "\<lparr> headerValues = map trim (headers judges), sheetRows = map (buildRow fmt judges) subs \<rparr>"
  from assms(2) have s: "getSubmissionsByMission (mission_id m) (submissions w) = subs" by simp
  from export_success [OF assms(1) s assms(3)] assms(4)
  have tab: "sheetsByTitle (snd (exportMissionToSheets throws fmt now m w)) (sanitizeTitle (title m))
               = Some ?sh"
    by simp
  have hdr: "length (headers judges) = 8 + length judges"
    by (simp add: headers_def)
  have cols: "sorted judges \<and> distinct judges
       \<and> set judges = (\<Union>s\<in>set subs. judgeId ` set (votes s))"
    using assms(4) by (simp add: judgeIdArray_sorted judgeIdArray_distinct judgeIdArray_set)
  have rows: "\<forall>i<length subs.
             length (sheetRows ?sh ! i) = 8 + length judges
           \<and> sheetRows ?sh ! i ! 0 = sub_id (subs ! i)
           \<and> sheetRows ?sh ! i ! 7 =
               (if votes (subs ! i) = [] then ''N/A''
                else toFixed2 (js_div (foldl js_add 0 (map (\<lambda>v. of_int (score v)) (votes (subs ! i))))
                                      (of_nat (length (votes (subs ! i))))))
           \<and> (votes (subs ! i) \<noteq> []
                \<and> (\<forall>v\<in>set (votes (subs ! i)). 1 \<le> score v \<and> score v \<le> 5)
                \<and> length (votes (subs ! i)) < 2 ^ 50 \<longrightarrow>
               sheetRows ?sh ! i ! 7 =
                 toFixed2 (js_round (of_int (sum_list (map score (votes (subs ! i))))
                                     / of_nat (length (votes (subs ! i))))))
           \<and> (\<forall>k<length judges.
                 sheetRows ?sh ! i ! (8 + k) =
                   (case find (\<lambda>v. judgeId v = judges ! k) (votes (subs ! i)) of
                      Some v \<Rightarrow> int_toString (score v) | None \<Rightarrow> [])
               \<and> (judges ! k \<notin> judgeId ` set (votes (subs ! i)) \<longrightarrow>
                    sheetRows ?sh ! i ! (8 + k) = []))"
  proof (intro allI impI conjI)
    fix i assume i: "i < length subs"
    then show "length (sheetRows ?sh ! i) = 8 + length judges"
      by (simp add: length_buildRow)
    from i show "sheetRows ?sh ! i ! 0 = sub_id (subs ! i)"
      by (simp add: buildRow_id)
    from i show "sheetRows ?sh ! i ! 7 =
               (if votes (subs ! i) = [] then ''N/A''
                else toFixed2 (js_div (foldl js_add 0 (map (\<lambda>v. of_int (score v)) (votes (subs ! i))))
                                      (of_nat (length (votes (subs ! i))))))"
      by (simp add: buildRow_average avgScore_cases)
  next
    fix i assume i: "i < length subs"
      and h: "votes (subs ! i) \<noteq> []
                \<and> (\<forall>v\<in>set (votes (subs ! i)). 1 \<le> score v \<and> score v \<le> 5)
                \<and> length (votes (subs ! i)) < 2 ^ 50"
    from h have "avgScore (subs ! i) =
                 toFixed2 (js_round (of_int (sum_list (map score (votes (subs ! i))))
                                     / of_nat (length (votes (subs ! i)))))"
      by (intro avgScore_is_mean) simp_all
    with i show "sheetRows ?sh ! i ! 7 =
                 toFixed2 (js_round (of_int (sum_list (map score (votes (subs ! i))))
                                     / of_nat (length (votes (subs ! i)))))"
      by (simp add: buildRow_average)
  next
    fix i k assume i: "i < length subs" and k: "k < length judges"
    then show "sheetRows ?sh ! i ! (8 + k) =
                   (case find (\<lambda>v. judgeId v = judges ! k) (votes (subs ! i)) of
                      Some v \<Rightarrow> int_toString (score v) | None \<Rightarrow> [])"
      by (simp add: buildRow_judge)
  next
    fix i k assume i: "i < length subs" and k: "k < length judges"
      and a: "judges ! k \<notin> judgeId ` set (votes (subs ! i))"
    from a have "find (\<lambda>v. judgeId v = judges ! k) (votes (subs ! i)) = None"
      by (rule find_absent)
    with i k show "sheetRows ?sh ! i ! (8 + k) = []"
      by (simp add: buildRow_judge)
  qed
  show ?thesis
  proof (intro exI conjI)
    show "sheetsByTitle (snd (exportMissionToSheets throws fmt now m w)) (sanitizeTitle (title m))
            = Some ?sh"
      by (rule tab)
    show "length (sheetRows ?sh) = length subs" by simp
    show "headerValues ?sh = map trim (headers judges)" by simp
    show "length (headerValues ?sh) = 8 + length judges" using hdr by simp
    show "sorted judges" using cols by simp
    show "distinct judges" using cols by simp
    show "set judges = (\<Union>s\<in>set subs. judgeId ` set (votes s))" using cols by simp
    show "\<forall>i<length subs.
             length (sheetRows ?sh ! i) = 8 + length judges
           \<and> sheetRows ?sh ! i ! 0 = sub_id (subs ! i)
           \<and> sheetRows ?sh ! i ! 7 =
               (if votes (subs ! i) = [] then ''N/A''
                else toFixed2 (js_div (foldl js_add 0 (map (\<lambda>v. of_int (score v)) (votes (subs ! i))))
                                      (of_nat (length (votes (subs ! i))))))
           \<and> (votes (subs ! i) \<noteq> []
                \<and> (\<forall>v\<in>set (votes (subs ! i)). 1 \<le> score v \<and> score v \<le> 5)
                \<and> length (votes (subs ! i)) < 2 ^ 50 \<longrightarrow>
               sheetRows ?sh ! i ! 7 =
                 toFixed2 (js_round (of_int (sum_list (map score (votes (subs ! i))))
                                     / of_nat (length (votes (subs ! i))))))
           \<and> (\<forall>k<length judges.
                 sheetRows ?sh ! i ! (8 + k) =
                   (case find (\<lambda>v. judgeId v = judges ! k) (votes (subs ! i)) of
                      Some v \<Rightarrow> int_toString (score v) | None \<Rightarrow> [])
               \<and> (judges ! k \<notin> judgeId ` set (votes (subs ! i)) \<longrightarrow>
                    sheetRows ?sh ! i ! (8 + k) = []))"
      by (rule rows)
  qed
qed

section \<open>Judges whose ids end alike\<close>

text \<open>
  C7. An export that returns success has written one row per submission and one column
  per judge (lemma \<open>export_success_rows\<close>), but not every mission with a submission gets
  there. The code names the column of a judge by the last six characters of the id, and
  the spreadsheet refuses a header row with two equal cells. Mission D has one
  submission, scored by judges 111111222333 and 999999222333: with the spreadsheet
  reachable and no call failing on its own, the export returns failure with row count 0,
  the new tab stays without rows and the mission is not marked exported.
\<close>

theorem export_judges_sharing_suffix_fails:
  "getSubmissionsByMission (mission_id mission_D) (submissions world_D) = [submission_D]
   \<and> judgeIdArray [submission_D] = [''111111222333'', ''999999222333'']
   \<and> drop 8 (headers (judgeIdArray [submission_D])) = [''Judge_222333'', ''Judge_222333'']
   \<and> \<not> success (fst (exportMissionToSheets (\<lambda>c. None) int_toString 130000 mission_D world_D))
   \<and> rowCount (fst (exportMissionToSheets (\<lambda>c. None) int_toString 130000 mission_D world_D)) = 0
   \<and> error (fst (exportMissionToSheets (\<lambda>c. None) int_toString 130000 mission_D world_D))
       = Some (duplicateHeaderMessage ''Judge_222333'')
   \<and> map_option sheetRows
        (sheetsByTitle (snd (exportMissionToSheets (\<lambda>c. None) int_toString 130000 mission_D world_D))
           (sanitizeTitle (title mission_D))) = Some []
   \<and> map status
        (missions (snd (exportMissionToSheets (\<lambda>c. None) int_toString 130000 mission_D world_D)))
       = [Active]"
  by code_simp

text \<open>
  The lookup of the tab misses a second case: mission C is titled \<open>constructor\<close>, no tab
  has that title, and the lookup yields the inherited \<^verbatim>\<open>constructor\<close>. The export takes
  the branch of an existing tab, fails at \<^verbatim>\<open>sheet.clear()\<close> and writes nothing.
\<close>

lemma export_inherited_title_fails:
  "sheetLookup (sheetsByTitle world_C) (sanitizeTitle (title mission_C)) = NotATab
   \<and> \<not> success (fst (exportMissionToSheets (\<lambda>c. None) int_toString 130000 mission_C world_C))
   \<and> rowCount (fst (exportMissionToSheets (\<lambda>c. None) int_toString 130000 mission_C world_C)) = 0
   \<and> calls (snd (exportMissionToSheets (\<lambda>c. None) int_toString 130000 mission_C world_C)) = []
   \<and> sheetsByTitle (snd (exportMissionToSheets (\<lambda>c. None) int_toString 130000 mission_C world_C))
        (sanitizeTitle (title mission_C)) = None"
  by code_simp

section \<open>Exporting a mission twice\<close>

text \<open>The spreadsheet of the scenario: S1 has average 3.00, S2 has 5.00 and no score of judge B.\<close>

lemma export_scenario_rows:
  "judgeIdArray (getSubmissionsByMission (mission_id mission_M) (submissions world_M))
     = [''judgeA'', ''judgeB'']
   \<and> success (fst (exportMissionToSheets (\<lambda>c. None) int_toString 130000 mission_M world_M))
   \<and> map_option sheetRows
        (sheetsByTitle
           (snd (exportMissionToSheets (\<lambda>c. None) int_toString 130000 mission_M world_M))
           (sanitizeTitle (title mission_M)))
      = Some
         [[''sub-2-aaaa'', ''u1'', ''user#1'', ''https://a.example/1'', ''https://a.example/1'',
           ''2'', ''2'', ''3.00'', ''4'', ''2''],
          [''sub-3-bbbb'', ''u2'', ''user#2'', ''https://a.example/2'', ''https://a.example/2'',
           ''3'', ''1'', ''5.00'', ''5'', []]]"
  by code_simp

lemma getSubmissionsByMission_markSubmissionsExported:
  "getSubmissionsByMission mid (markSubmissionsExported mid subs)
     = map (\<lambda>s. s\<lparr> exported := True \<rparr>) (getSubmissionsByMission mid subs)"
  by (induction subs) (simp_all add: getSubmissionsByMission_def markSubmissionsExported_def)

lemma buildRow_ignores_exported:
  "buildRow fmt judges (s\<lparr> exported := b \<rparr>) = buildRow fmt judges s"
  by (simp add: buildRow_def avgScore_def judgeScores_def)

lemma judgeIdArray_ignores_exported:
  "judgeIdArray (map (\<lambda>s. s\<lparr> exported := b \<rparr>) subs) = judgeIdArray subs"
  by (simp add: judgeIdArray_def foldl_map)

text \<open>
  With no remote call throwing, an export of a mission with submissions returns success
  exactly when the title finds a tab or nothing and no two header cells coincide.
\<close>

lemma export_success_iff:
  assumes "\<forall>c. throws c = None"
    and "getSubmissionsByMission (mission_id m) (submissions w) = subs"
    and "subs \<noteq> []"
  shows "success (fst (exportMissionToSheets throws fmt now m w))
           = (sheetLookup (sheetsByTitle w) (sanitizeTitle (title m)) \<noteq> NotATab
              \<and> duplicateHeader (map trim (headers (judgeIdArray subs))) = None)"
  using assms
  by (auto simp: exportMissionToSheets_def Let_def setHeaderRowThrows_def failed_def
      split: option.splits)

text \<open>
  C8, as the code has it. Take a mission with at least one submission and run the export
  twice, both runs returning success. The mission's tab has one row per submission after
  the first run and after the second, both runs report that row count, the mission has
  as many submissions after each run as before, the second run leaves the document
  exactly as the first run left it, and its first call to the spreadsheet clears the tab.
\<close>

theorem export_twice_same_rows:
  assumes "success (fst (exportMissionToSheets throws1 fmt now1 m w))"
    and "w1 = snd (exportMissionToSheets throws1 fmt now1 m w)"
    and "success (fst (exportMissionToSheets throws2 fmt now2 m w1))"
    and "w2 = snd (exportMissionToSheets throws2 fmt now2 m w1)"
    and "subs = getSubmissionsByMission (mission_id m) (submissions w)"
    and "subs \<noteq> []"
  shows "tabRowCount (sheetsByTitle w1) (sanitizeTitle (title m)) = length subs
       \<and> tabRowCount (sheetsByTitle w2) (sanitizeTitle (title m)) = length subs
       \<and> length (getSubmissionsByMission (mission_id m) (submissions w1)) = length subs
       \<and> length (getSubmissionsByMission (mission_id m) (submissions w2)) = length subs
       \<and> rowCount (fst (exportMissionToSheets throws1 fmt now1 m w)) = length subs
       \<and> rowCount (fst (exportMissionToSheets throws2 fmt now2 m w1)) = length subs
       \<and> sheetsByTitle w2 = sheetsByTitle w1
       \<and> take 1 (drop (length (calls w1)) (calls w2)) = [ClearCall (sanitizeTitle (title m))]"
proof -
  let ?t = "sanitizeTitle (title m)"
  let ?sh = "\<lparr> headerValues = map trim (headers (judgeIdArray subs)),
                sheetRows = map (buildRow fmt (judgeIdArray subs)) subs \<rparr>"
  from assms(5) have s: "getSubmissionsByMission (mission_id m) (submissions w) = subs" by simp
  note x1 = export_success [OF assms(1) s assms(6)]
  from x1 assms(2) have d1: "sheetsByTitle w1 = (sheetsByTitle w)(?t \<mapsto> ?sh)"
    and sub1: "submissions w1 = markSubmissionsExported (mission_id m) (submissions w)"
    by simp_all
  let ?subs1 = "map (\<lambda>s. s\<lparr> exported := True \<rparr>) subs"
  from sub1 s have s1: "getSubmissionsByMission (mission_id m) (submissions w1) = ?subs1"
    by (simp add: getSubmissionsByMission_markSubmissionsExported)
  from assms(6) have ne1: "?subs1 \<noteq> []" by simp
  note x2 = export_success [OF assms(3) s1 ne1]
  from x2 assms(4) have sub2: "submissions w2 = markSubmissionsExported (mission_id m) (submissions w1)"
    by simp
  from sub2 s1 have s2: "getSubmissionsByMission (mission_id m) (submissions w2)
                           = map (\<lambda>s. s\<lparr> exported := True \<rparr>) ?subs1"
    by (simp add: getSubmissionsByMission_markSubmissionsExported)
  from x2 assms(4) d1 have d2: "sheetsByTitle w2 = sheetsByTitle w1"
    by (simp add: judgeIdArray_ignores_exported buildRow_ignores_exported comp_def)
  from d1 have found: "sheetsByTitle w1 ?t \<noteq> None" by simp
  from x2 assms(4) found have c2: "take 1 (drop (length (calls w1)) (calls w2)) = [ClearCall ?t]"
    by simp
  from x1 have r1: "rowCount (fst (exportMissionToSheets throws1 fmt now1 m w)) = length subs"
    by simp
  from x2 have r2: "rowCount (fst (exportMissionToSheets throws2 fmt now2 m w1)) = length subs"
    by simp
  from d1 have t1: "tabRowCount (sheetsByTitle w1) ?t = length subs"
    by (simp add: tabRowCount_def)
  from t1 d2 r1 r2 c2 s1 s2 show ?thesis by simp
qed

text \<open>
  The claim does not hold for every mission. Mission T has no submission and the title of
  mission M, whose export has left two rows in the tab of that title. Both exports of T
  return success with row count 0 and write nothing, so after each of them the tab under
  T's title holds two rows, and T has no submission.
\<close>

theorem export_twice_shared_title_counterexample:
  "title mission_T = title mission_M \<and> mission_id mission_T \<noteq> mission_id mission_M
   \<and> getSubmissionsByMission (mission_id mission_T) (submissions world_T) = []
   \<and> success (fst (exportMissionToSheets (\<lambda>c. None) int_toString 130000 mission_T world_T))
   \<and> rowCount (fst (exportMissionToSheets (\<lambda>c. None) int_toString 130000 mission_T world_T)) = 0
   \<and> tabRowCount
        (sheetsByTitle (snd (exportMissionToSheets (\<lambda>c. None) int_toString 130000 mission_T world_T)))
        (sanitizeTitle (title mission_T)) = 2
   \<and> success (fst (exportMissionToSheets (\<lambda>c. None) int_toString 140000 mission_T
        (snd (exportMissionToSheets (\<lambda>c. None) int_toString 130000 mission_T world_T))))
   \<and> tabRowCount
        (sheetsByTitle (snd (exportMissionToSheets (\<lambda>c. None) int_toString 140000 mission_T
           (snd (exportMissionToSheets (\<lambda>c. None) int_toString 130000 mission_T world_T)))))
        (sanitizeTitle (title mission_T)) = 2"
  by code_simp

theorem export_twice_same_rows_witness:
  "success (fst (exportMissionToSheets (\<lambda>c. None) int_toString 130000 mission_M world_M))
   \<and> success (fst (exportMissionToSheets (\<lambda>c. None) int_toString 140000 mission_M
        (snd (exportMissionToSheets (\<lambda>c. None) int_toString 130000 mission_M world_M))))
   \<and> getSubmissionsByMission (mission_id mission_M) (submissions world_M)
       = [submission_S1, submission_S2]
   \<and> tabRowCount
        (sheetsByTitle (snd (exportMissionToSheets (\<lambda>c. None) int_toString 130000 mission_M world_M)))
        (sanitizeTitle (title mission_M)) = 2
   \<and> tabRowCount
        (sheetsByTitle (snd (exportMissionToSheets (\<lambda>c. None) int_toString 140000 mission_M
           (snd (exportMissionToSheets (\<lambda>c. None) int_toString 130000 mission_M world_M)))))
        (sanitizeTitle (title mission_M)) = 2"
proof -
  have a: "success (fst (exportMissionToSheets (\<lambda>c. None) int_toString 130000 mission_M world_M))"
    by code_simp
  have b: "success (fst (exportMissionToSheets (\<lambda>c. None) int_toString 140000 mission_M
        (snd (exportMissionToSheets (\<lambda>c. None) int_toString 130000 mission_M world_M))))"
    by code_simp
  have s: "getSubmissionsByMission (mission_id mission_M) (submissions world_M)
             = [submission_S1, submission_S2]"
    by code_simp
  then have n: "getSubmissionsByMission (mission_id mission_M) (submissions world_M) \<noteq> []"
    by simp
  from export_twice_same_rows [OF a refl b refl refl n] a b s
  show ?thesis by simp
qed

section \<open>One iteration of the deadline sweep\<close>

lemma export_missions:
  "missions (snd (exportMissionToSheets throws fmt now m w))
     = (if success (fst (exportMissionToSheets throws fmt now m w))
        then markMissionExported now (mission_id m) (missions w)
        else missions w)"
  by (simp add: exportMissionToSheets_def Let_def failed_def split: option.splits)

lemma status_after_export:
  assumes "getMissionById (mission_id m) (missions w) = Some m1"
    and "status m1 \<noteq> Exported"
  shows "(map_option status
            (getMissionById (mission_id m) (missions (snd (exportMissionToSheets throws fmt now m w))))
          = Some Exported)
         = success (fst (exportMissionToSheets throws fmt now m w))"
  using assms by (simp add: export_missions getMissionById_markMissionExported)


text \<open>
  One run of the loop body on a mission the sweep selected (stored, status \<open>active\<close>), in
  any environment. If the awaited summary, thread-locking and announcement calls resolve
  (whatever \<^verbatim>\<open>closeThread\<close> resolves to), the mission's status is \<open>closed\<close> or \<open>exported\<close>
  afterwards. The status is \<open>exported\<close> afterwards only if the results call resolved, the
  spreadsheet is configured and the export returned success.
\<close>

lemma processMission_status:
  assumes "getMissionById (mission_id m) (missions w) = Some m0"
    and "status m0 = Active"
    and "subs = getSubmissionsByMission (mission_id m) (submissions w)"
    and "after = map_option status
                   (getMissionById (mission_id m) (missions (world_of (processMission e now m w))))"
  shows "((\<exists>u. postMissionSummaryToThread e (threadId m) m subs = Resolved u)
           \<and> (\<exists>threadClosed. closeThread e (threadId m) = Resolved threadClosed)
           \<and> (\<exists>u. updateStarterEmbed e m = Resolved u)
          \<longrightarrow> after = Some Closed \<or> after = Some Exported)
       \<and> (after = Some Exported \<longrightarrow>
            (\<exists>u. postMissionResultsToChannel e m subs = Resolved u)
          \<and> isSheetsConfigured e
          \<and> success (fst (exportMissionToSheets (sheetsThrows e m) (toISOString e) now m
                (w\<lparr> missions := markMissionClosed (mission_id m) (missions w) \<rparr>))))"
proof -
  let ?w1 = "w\<lparr> missions := markMissionClosed (mission_id m) (missions w) \<rparr>"
  let ?x = "exportMissionToSheets (sheetsThrows e m) (toISOString e) now m ?w1"
  from assms(1) have c: "getMissionById (mission_id m) (missions ?w1) = Some (m0\<lparr> status := Closed \<rparr>)"
    by (simp add: getMissionById_markMissionClosed)
  have x: "(map_option status (getMissionById (mission_id m) (missions (snd ?x))) = Some Exported)
             = success (fst ?x)"
    by (rule status_after_export [OF c]) simp
  have y: "map_option status (getMissionById (mission_id m) (missions (snd ?x))) = Some Closed
         \<or> map_option status (getMissionById (mission_id m) (missions (snd ?x))) = Some Exported"
    using c by (simp add: export_missions getMissionById_markMissionExported)
  show ?thesis
  proof (cases "postMissionSummaryToThread e (threadId m) m subs")
    case (Rejected msg)
    with assms show ?thesis by (simp add: processMission_def world_of_def)
  next
    case s2: (Resolved u2)
    show ?thesis
    proof (cases "closeThread e (threadId m)")
      case (Rejected msg)
      with s2 assms show ?thesis by (simp add: processMission_def world_of_def)
    next
      case s3: (Resolved threadClosed)
      show ?thesis
      proof (cases "updateStarterEmbed e m")
        case (Rejected msg)
        with s2 s3 assms show ?thesis by (simp add: processMission_def world_of_def)
      next
        case s4: (Resolved u4)
        show ?thesis
        proof (cases "postMissionResultsToChannel e m subs")
          case (Rejected msg)
          with s2 s3 s4 assms(3,4) c show ?thesis
            by (simp add: processMission_def world_of_def)
        next
          case s6: (Resolved u6)
          show ?thesis
          proof (cases "isSheetsConfigured e")
            case False
            with s2 s3 s4 s6 assms(3,4) c show ?thesis
              by (simp add: processMission_def world_of_def)
          next
            case True
            with s2 s3 s4 s6 assms(3,4) have "after =
                map_option status (getMissionById (mission_id m) (missions (snd ?x)))"
              by (simp add: processMission_def world_of_def)
            with x y s6 True show ?thesis by auto
          qed
        qed
      qed
    qed
  qed
qed

text \<open>
  The sweep has no \<^verbatim>\<open>try\<close> around its awaited calls: in an environment whose summary call
  rejected, it would end before the closing step. Whether a failure of the chat platform
  reaches the sweep as a rejection is decided in discord.ts.
\<close>

lemma checkDeadlines_rejected_call_ends_sweep:
  "getMissionsPastDeadline 120000 (missions world_M) = [mission_M]
   \<and> (case checkDeadlines env_summary_rejects 120000 world_M of
         Done w' \<Rightarrow> False | Failed msg w' \<Rightarrow> msg = ''Missing Access'')
   \<and> map_option status
        (getMissionById (mission_id mission_M)
           (missions (world_of (checkDeadlines env_summary_rejects 120000 world_M))))
      = Some Active"
  by code_simp

lemma all_resolve_discord_env: "all_resolve (discord_env c configured thr fmt)"
  by (auto simp: all_resolve_def discord_env_def postMissionSummaryToThread_spec_def
      closeThread_spec_def updateStarterEmbed_spec_def postMissionResultsToChannel_spec_def
      split: platform.splits)

lemma processMission_discord_env:
  "processMission (discord_env c configured thr fmt) now m w =
     (let w1 = w\<lparr> missions := markMissionClosed (mission_id m) (missions w) \<rparr>
      in if configured then Done (snd (exportMissionToSheets (thr m) fmt now m w1)) else Done w1)"
  by (simp add: processMission_def discord_env_def postMissionSummaryToThread_spec_def
      closeThread_spec_def updateStarterEmbed_spec_def postMissionResultsToChannel_spec_def
      Let_def split: platform.splits)

text \<open>
  C2. Take a mission the sweep selected (stored, status \<open>active\<close>) and run the loop body on
  it, with the collaborators of discord.ts and whatever the chat platform does to their
  calls, every call throwing included. The loop body runs to its end. The closing step is
  made: the export, when there is one, starts from a store in which the mission is
  \<open>closed\<close>. Afterwards the mission's status is \<open>closed\<close> or \<open>exported\<close>, and it is
  \<open>exported\<close> only if the spreadsheet is configured and the export step returned success.
\<close>

theorem processMission_closes_even_if_steps_throw:
  assumes "getMissionById (mission_id m) (missions w) = Some m0"
    and "status m0 = Active"
    and "e = discord_env c configured thr fmt"
    and "w1 = w\<lparr> missions := markMissionClosed (mission_id m) (missions w) \<rparr>"
    and "after = map_option status
                   (getMissionById (mission_id m) (missions (world_of (processMission e now m w))))"
  shows "(\<exists>w'. processMission e now m w = Done w')
       \<and> map_option status (getMissionById (mission_id m) (missions w1)) = Some Closed
       \<and> processMission e now m w
           = (if configured then Done (snd (exportMissionToSheets (thr m) fmt now m w1)) else Done w1)
       \<and> (after = Some Closed \<or> after = Some Exported)
       \<and> (after = Some Exported \<longrightarrow>
            configured \<and> success (fst (exportMissionToSheets (thr m) fmt now m w1)))"
proof -
  let ?x = "exportMissionToSheets (thr m) fmt now m w1"
  from assms(1,4) have c: "getMissionById (mission_id m) (missions w1) = Some (m0\<lparr> status := Closed \<rparr>)"
    by (simp add: getMissionById_markMissionClosed)
  have p: "processMission e now m w = (if configured then Done (snd ?x) else Done w1)"
    unfolding assms(3,4) by (simp add: processMission_discord_env Let_def)
  have x: "(map_option status (getMissionById (mission_id m) (missions (snd ?x))) = Some Exported)
             = success (fst ?x)"
    by (rule status_after_export [OF c]) simp
  have y: "map_option status (getMissionById (mission_id m) (missions (snd ?x))) = Some Closed
         \<or> map_option status (getMissionById (mission_id m) (missions (snd ?x))) = Some Exported"
    using c by (simp add: export_missions getMissionById_markMissionExported)
  show ?thesis
  proof (cases configured)
    case True
    with p assms(5) have "after = map_option status (getMissionById (mission_id m) (missions (snd ?x)))"
      by (simp add: world_of_def)
    with x y True p c show ?thesis by auto
  next
    case False
    with p assms(5) c have "after = Some Closed" by (simp add: world_of_def)
    with False p c show ?thesis by simp
  qed
qed

text \<open>
  The scenario of the specification on a chat platform where the summary, locking and
  announcement calls all throw: with the spreadsheet reachable the mission ends
  \<open>exported\<close>; when the spreadsheet refuses the rows, or is not configured, it ends
  \<open>closed\<close>.
\<close>

theorem processMission_closes_even_if_steps_throw_witness:
  "getMissionById (mission_id mission_M) (missions world_M) = Some mission_M
   \<and> status mission_M = Active
   \<and> summaryCalls chat_down (threadId mission_M) mission_M [submission_S1, submission_S2]
       = Throws ''Missing Access''
   \<and> lockCalls chat_down (threadId mission_M) = Throws ''Missing Permissions''
   \<and> embedCalls chat_down mission_M = Throws ''Unknown Message''
   \<and> map_option status
        (getMissionById (mission_id mission_M)
           (missions (world_of (processMission
              (discord_env chat_down True (\<lambda>m c. None) int_toString) 120000 mission_M world_M))))
      = Some Exported
   \<and> success (fst (exportMissionToSheets (\<lambda>c. None) int_toString 120000 mission_M
        (world_M\<lparr> missions := markMissionClosed (mission_id mission_M) (missions world_M) \<rparr>)))
   \<and> map_option status
        (getMissionById (mission_id mission_M)
           (missions (world_of (processMission
              (discord_env chat_down True
                 (\<lambda>m c. if c = AddRows then Some ''Quota exceeded'' else None) int_toString)
              120000 mission_M world_M))))
      = Some Closed
   \<and> map_option status
        (getMissionById (mission_id mission_M)
           (missions (world_of (processMission
              (discord_env chat_down False (\<lambda>m c. None) int_toString) 120000 mission_M world_M))))
      = Some Closed"
proof -
  have g: "getMissionById (mission_id mission_M) (missions world_M) = Some mission_M"
    by code_simp
  have a: "status mission_M = Active" by (simp add: mission_M_def)
  have t: "summaryCalls chat_down (threadId mission_M) mission_M [submission_S1, submission_S2]
             = Throws ''Missing Access''
         \<and> lockCalls chat_down (threadId mission_M) = Throws ''Missing Permissions''
         \<and> embedCalls chat_down mission_M = Throws ''Unknown Message''"
    by (simp add: chat_down_def)
  have x: "map_option status
        (getMissionById (mission_id mission_M)
           (missions (world_of (processMission
              (discord_env chat_down True (\<lambda>m c. None) int_toString) 120000 mission_M world_M))))
      = Some Exported"
    by code_simp
  have q: "map_option status
        (getMissionById (mission_id mission_M)
           (missions (world_of (processMission
              (discord_env chat_down True
                 (\<lambda>m c. if c = AddRows then Some ''Quota exceeded'' else None) int_toString)
              120000 mission_M world_M))))
      = Some Closed"
    by code_simp
  have n: "map_option status
        (getMissionById (mission_id mission_M)
           (missions (world_of (processMission
              (discord_env chat_down False (\<lambda>m c. None) int_toString) 120000 mission_M world_M))))
      = Some Closed"
    by code_simp
  from processMission_closes_even_if_steps_throw [OF g a refl refl refl,
      where c = chat_down and configured = True and thr = "\<lambda>m c. None" and fmt = int_toString
        and now = 120000] x
  have "success (fst (exportMissionToSheets (\<lambda>c. None) int_toString 120000 mission_M
        (world_M\<lparr> missions := markMissionClosed (mission_id mission_M) (missions world_M) \<rparr>)))"
    by simp
  with g a t x q n show ?thesis by simp
qed

section \<open>A whole sweep\<close>

lemma find_other_update_first:
  assumes "\<And>x. key (f x) = key x" and "k' \<noteq> k"
  shows "find (\<lambda>x. key x = k') (update_first (\<lambda>x. key x = k) f xs) = find (\<lambda>x. key x = k') xs"
  using assms by (induction xs) auto

lemma getMissionById_other_closed:
  "mid' \<noteq> mid \<Longrightarrow> getMissionById mid' (markMissionClosed mid ms) = getMissionById mid' ms"
  by (cases "find (\<lambda>m. mission_id m = mid) ms")
    (simp_all add: getMissionById_def markMissionClosed_def find_other_update_first)

lemma getMissionById_other_exported:
  "mid' \<noteq> mid \<Longrightarrow> getMissionById mid' (markMissionExported now mid ms) = getMissionById mid' ms"
  by (cases "find (\<lambda>m. mission_id m = mid) ms")
    (simp_all add: getMissionById_def markMissionExported_def find_other_update_first)

text \<open>What one iteration leaves in the mission collection, in each of its outcomes.\<close>

lemma processMission_missions:
  "missions (world_of (processMission e now m w)) = missions w
   \<or> missions (world_of (processMission e now m w)) = markMissionClosed (mission_id m) (missions w)
   \<or> missions (world_of (processMission e now m w))
       = markMissionExported now (mission_id m) (markMissionClosed (mission_id m) (missions w))"
  by (simp add: processMission_def world_of_def Let_def export_missions split: awaited.splits)

lemma processMission_other_mission:
  assumes "mid' \<noteq> mission_id m"
  shows "getMissionById mid' (missions (world_of (processMission e now m w)))
           = getMissionById mid' (missions w)"
  using processMission_missions [of e now m w] assms
  by (auto simp: getMissionById_other_closed getMissionById_other_exported)

lemma processMission_keeps_stored:
  "(getMissionById mid' (missions (world_of (processMission e now m w))) = None)
     = (getMissionById mid' (missions w) = None)"
proof (cases "mid' = mission_id m")
  case True
  with processMission_missions [of e now m w] show ?thesis
    by (auto simp: getMissionById_markMissionClosed getMissionById_markMissionExported)
next
  case False
  then show ?thesis by (simp add: processMission_other_mission)
qed

lemma processMission_done:
  assumes "all_resolve e"
  shows "processMission e now m w = Done (world_of (processMission e now m w))"
proof -
  from assms obtain u2 b u4 u6 where
    "postMissionSummaryToThread e (threadId m) m
       (getSubmissionsByMission (mission_id m) (submissions w)) = Resolved u2"
    "closeThread e (threadId m) = Resolved b"
    "updateStarterEmbed e m = Resolved u4"
    "postMissionResultsToChannel e m
       (getSubmissionsByMission (mission_id m) (submissions w)) = Resolved u6"
    unfolding all_resolve_def by metis
  then show ?thesis by (simp add: processMission_def world_of_def Let_def)
qed

lemma processMission_closed_or_exported:
  assumes "all_resolve e" and "getMissionById (mission_id m) (missions w) \<noteq> None"
  shows "map_option status (getMissionById (mission_id m) (missions (world_of (processMission e now m w))))
           \<in> {Some Closed, Some Exported}"
proof -
  from assms(1) obtain u2 b u4 u6 where r:
    "postMissionSummaryToThread e (threadId m) m
       (getSubmissionsByMission (mission_id m) (submissions w)) = Resolved u2"
    "closeThread e (threadId m) = Resolved b"
    "updateStarterEmbed e m = Resolved u4"
    "postMissionResultsToChannel e m
       (getSubmissionsByMission (mission_id m) (submissions w)) = Resolved u6"
    unfolding all_resolve_def by metis
  from assms(2) obtain m0 where "getMissionById (mission_id m) (missions w) = Some m0" by auto
  with r show ?thesis
    by (simp add: processMission_def world_of_def Let_def export_missions
        getMissionById_markMissionClosed getMissionById_markMissionExported)
qed

lemma processAll_other_mission:
  "mid' \<notin> mission_id ` set sel \<Longrightarrow>
   getMissionById mid' (missions (world_of (processAll e now sel w)))
     = getMissionById mid' (missions w)"
proof (induction sel arbitrary: w)
  case Nil
  then show ?case by (simp add: world_of_def)
next
  case (Cons m sel)
  from Cons.prems have d: "mid' \<noteq> mission_id m" and r: "mid' \<notin> mission_id ` set sel" by auto
  show ?case
  proof (cases "processMission e now m w")
    case (Done w')
    then have "world_of (processMission e now m w) = w'" by (simp add: world_of_def)
    with processMission_other_mission [OF d, of e now w]
    have "getMissionById mid' (missions w') = getMissionById mid' (missions w)" by simp
    with Done Cons.IH [OF r, of w'] show ?thesis by simp
  next
    case (Failed msg w')
    then have "world_of (processMission e now m w) = w'" by (simp add: world_of_def)
    with processMission_other_mission [OF d, of e now w] Failed show ?thesis
      by (simp add: world_of_def)
  qed
qed

text \<open>
  When no collaborator rejects, a sweep over stored missions with distinct ids runs to
  its end and leaves every mission it selected \<open>closed\<close> or \<open>exported\<close>.
\<close>

lemma processAll_closes_all:
  assumes "all_resolve e"
    and "distinct (map mission_id sel)"
    and "\<forall>m\<in>set sel. getMissionById (mission_id m) (missions w) \<noteq> None"
  shows "(\<exists>w'. processAll e now sel w = Done w')
       \<and> (\<forall>m\<in>set sel.
             map_option status
               (getMissionById (mission_id m) (missions (world_of (processAll e now sel w))))
             \<in> {Some Closed, Some Exported})"
  using assms(2,3)
proof (induction sel arbitrary: w)
  case Nil
  then show ?case by simp
next
  case (Cons m sel)
  let ?w1 = "world_of (processMission e now m w)"
  have done1: "processMission e now m w = Done ?w1"
    using assms(1) by (rule processMission_done)
  from Cons.prems(1) have fresh: "mission_id m \<notin> mission_id ` set sel"
    and dist: "distinct (map mission_id sel)"
    by simp_all
  from Cons.prems(2) have stored: "getMissionById (mission_id m) (missions w) \<noteq> None"
    and rest: "\<forall>x\<in>set sel. getMissionById (mission_id x) (missions w) \<noteq> None"
    by simp_all
  from rest have rest1: "\<forall>x\<in>set sel. getMissionById (mission_id x) (missions ?w1) \<noteq> None"
    by (simp add: processMission_keeps_stored)
  note ih = Cons.IH [OF dist rest1]
  have all: "processAll e now (m # sel) w = processAll e now sel ?w1"
    by (subst processAll.simps(2), subst done1) simp
  have head: "map_option status
               (getMissionById (mission_id m) (missions (world_of (processAll e now sel ?w1))))
             \<in> {Some Closed, Some Exported}"
    using processAll_other_mission [OF fresh, of e now ?w1]
      processMission_closed_or_exported [OF assms(1) stored, of now]
    by simp
  from ih head show ?case unfolding all by simp
qed

lemma checkDeadlines_closes_all:
  assumes "all_resolve e"
    and "distinct (map mission_id (missions w))"
  shows "(\<exists>w'. checkDeadlines e now w = Done w')
       \<and> (\<forall>m\<in>set (getMissionsPastDeadline now (missions w)).
             map_option status
               (getMissionById (mission_id m) (missions (world_of (checkDeadlines e now w))))
             \<in> {Some Closed, Some Exported})"
proof (cases "getMissionsPastDeadline now (missions w) = []")
  case True
  then show ?thesis by (simp add: checkDeadlines_def)
next
  case False
  let ?sel = "getMissionsPastDeadline now (missions w)"
  have d: "distinct (map mission_id ?sel)"
    using assms(2) by (simp add: getMissionsPastDeadline_def distinct_map_filter)
  have s: "\<forall>m\<in>set ?sel. getMissionById (mission_id m) (missions w) \<noteq> None"
  proof
    fix m assume "m \<in> set ?sel"
    then have "m \<in> set (missions w)" by (simp add: getMissionsPastDeadline_def)
    with assms(2) have "getMissionById (mission_id m) (missions w) = Some m"
      unfolding getMissionById_def by (intro find_distinct_key)
    then show "getMissionById (mission_id m) (missions w) \<noteq> None" by simp
  qed
  from False have "checkDeadlines e now w = processAll e now ?sel w"
    by (simp add: checkDeadlines_def)
  with processAll_closes_all [OF assms(1) d s, of now] show ?thesis by simp
qed


text \<open>
  With the collaborators of discord.ts, whatever the chat platform does: a sweep over a
  store with distinct mission ids runs to its end and leaves every mission it selected
  \<open>closed\<close> or \<open>exported\<close>.
\<close>

lemma checkDeadlines_discord_closes_all:
  assumes "distinct (map mission_id (missions w))"
  shows "(\<exists>w'. checkDeadlines (discord_env c configured thr fmt) now w = Done w')
       \<and> (\<forall>m\<in>set (getMissionsPastDeadline now (missions w)).
             map_option status
               (getMissionById (mission_id m)
                  (missions (world_of (checkDeadlines (discord_env c configured thr fmt) now w))))
             \<in> {Some Closed, Some Exported})"
  using all_resolve_discord_env assms by (rule checkDeadlines_closes_all)

end
